theory Spec2Isabelle
  imports Complex_Main "HOL-Library.Multiset" "HOL-Library.Product_Lexorder"
begin

section \<open>Exceptions and logging\<close>

text \<open>
  A Python exception is a value carrying its message. Code that may raise returns
  \<open>exn + 'a\<close>, with \<open>Inl\<close> for the raised exception.
\<close>

datatype exn = Exn string

fun exn_msg :: "exn \<Rightarrow> string" where
  "exn_msg (Exn m) = m"

datatype log_entry = LogInfo string | LogWarning string | LogError string

section \<open>Sync Orchestrator\<close>

text \<open>
  \<^verbatim>\<open>src/data_sync.py\<close>, \<^verbatim>\<open>DataLakeSync.sync_all_tables\<close>. The five entity passes
  talk to the database and to the index store; what the orchestrator sees of a pass is
  whether it returns or raises, which is the parameter \<open>outcome\<close>. The state records
  which passes were started and what was logged; an exception does not undo either.
\<close>

datatype entity_kind = DataSources | Users | Modules | Statuses | Labels

record 'k orch_state =
  attempted :: "'k list"
  orch_log :: "log_entry list"

definition orch_init :: "'k orch_state" where
  "orch_init = \<lparr>attempted = [], orch_log = []\<rparr>"

definition orch_info :: "string \<Rightarrow> 'k orch_state \<Rightarrow> 'k orch_state" where
  "orch_info m st = st\<lparr>orch_log := orch_log st @ [LogInfo m]\<rparr>"

definition orch_error :: "string \<Rightarrow> 'k orch_state \<Rightarrow> 'k orch_state" where
  "orch_error m st = st\<lparr>orch_log := orch_log st @ [LogError m]\<rparr>"

definition run_pass ::
  "('k \<Rightarrow> exn option) \<Rightarrow> 'k \<Rightarrow> 'k orch_state \<Rightarrow> exn option \<times> 'k orch_state" where
  "run_pass outcome k st = (outcome k, st\<lparr>attempted := attempted st @ [k]\<rparr>)"

text \<open>
  The statements of one \<^verbatim>\<open>try\<close> block, run in order: the first pass that raises ends
  the block.
\<close>

fun run_passes ::
  "('k \<Rightarrow> exn option) \<Rightarrow> 'k list \<Rightarrow> 'k orch_state \<Rightarrow> exn option \<times> 'k orch_state" where
  "run_passes outcome [] st = (None, st)"
| "run_passes outcome (k # ks) st =
     (case run_pass outcome k st of
        (Some e, st') \<Rightarrow> (Some e, st')
      | (None, st') \<Rightarrow> run_passes outcome ks st')"

definition sync_all_tables ::
  "(entity_kind \<Rightarrow> exn option) \<Rightarrow> entity_kind orch_state \<Rightarrow> entity_kind orch_state" where
  "sync_all_tables outcome st =
     (case run_passes outcome [DataSources, Users, Modules, Statuses, Labels]
             (orch_info ''Starting data sync'' st) of
        (None, st') \<Rightarrow> orch_info ''Completed data sync'' st'
      | (Some e, st') \<Rightarrow> orch_error (''Error during data sync: '' @ exn_msg e) st')"

text \<open>
  \<^verbatim>\<open>data_lake_sync.py\<close>, \<^verbatim>\<open>DataLakeSync.sync_all_tables\<close>: the table-by-table
  orchestrator, whose \<^verbatim>\<open>try\<close> is inside the loop.
\<close>

fun data_lake_sync_all_tables ::
  "(string \<Rightarrow> exn option) \<Rightarrow> string list \<Rightarrow> string orch_state \<Rightarrow> string orch_state" where
  "data_lake_sync_all_tables outcome [] st = st"
| "data_lake_sync_all_tables outcome (t # ts) st =
     data_lake_sync_all_tables outcome ts
       (case run_pass outcome t (orch_info (''Starting sync for table: '' @ t) st) of
          (None, st') \<Rightarrow> orch_info (''Completed sync for table: '' @ t) st'
        | (Some e, st') \<Rightarrow>
            orch_error (''Error syncing table '' @ t @ '': '' @ exn_msg e) st')"

section \<open>Python values\<close>

text \<open>
  The values a document can hold. A float is a finite number, an infinity or NaN. A
  \<^verbatim>\<open>str\<close> is the byte sequence of its UTF-8 encoding and a \<^verbatim>\<open>bytes\<close> object is its
  bytes. A UUID is represented by its canonical lowercase hyphenated text (what
  \<^verbatim>\<open>str\<close> returns), a \<^verbatim>\<open>pandas.Timestamp\<close> and a \<^verbatim>\<open>datetime\<close> by their ISO-8601 text
  (what \<^verbatim>\<open>isoformat()\<close> returns). \<open>VOther\<close> stands for any object of another class.
  A dict is the list of its items in insertion order, with string keys.
  A \<^verbatim>\<open>numpy.ndarray\<close> or \<^verbatim>\<open>pandas.Series\<close> is one-dimensional: its dtype kind and
  the objects that iterating over it yields (numpy scalars for a numeric ndarray, Python
  scalars for a numeric Series, the stored objects for dtype object).
\<close>

datatype fl = NaN | PosInf | NegInf | Fin real

datatype dkind = KInt | KFloat | KBool | KObject

datatype pyval =
    VNone
  | VBool bool
  | VInt int
  | VFloat fl
  | VStr string
  | VBytes string
  | VNaT
  | VNA
  | VNpInt int
  | VNpFloat fl
  | VNpBool bool
  | VUUID string
  | VTimestamp string
  | VDatetime string
  | VOther nat
  | VList "pyval list"
  | VDict "(string \<times> pyval) list"
  | VArray dkind "pyval list"
  | VSeries dkind "pyval list"

type_synonym pydict = "(string \<times> pyval) list"

subsection \<open>Dict operations\<close>

fun dict_get :: "pydict \<Rightarrow> string \<Rightarrow> pyval option" where
  "dict_get [] k = None"
| "dict_get ((k', v') # kvs) k = (if k' = k then Some v' else dict_get kvs k)"

text \<open>\<^verbatim>\<open>d[k] = v\<close>: an existing key keeps its position, a new key goes last.\<close>

fun dict_set :: "pydict \<Rightarrow> string \<Rightarrow> pyval \<Rightarrow> pydict" where
  "dict_set [] k v = [(k, v)]"
| "dict_set ((k', v') # kvs) k v =
     (if k' = k then (k, v) # kvs else (k', v') # dict_set kvs k v)"

subsection \<open>Type tests\<close>

fun is_dict :: "pyval \<Rightarrow> bool" where
  "is_dict (VDict kvs) = True"
| "is_dict v = False"

fun is_list :: "pyval \<Rightarrow> bool" where
  "is_list (VList xs) = True"
| "is_list v = False"

fun is_ndarray :: "pyval \<Rightarrow> bool" where
  "is_ndarray (VArray k xs) = True"
| "is_ndarray v = False"

fun is_series :: "pyval \<Rightarrow> bool" where
  "is_series (VSeries k xs) = True"
| "is_series v = False"

fun is_uuid :: "pyval \<Rightarrow> bool" where
  "is_uuid (VUUID s) = True"
| "is_uuid v = False"

fun is_timestamp :: "pyval \<Rightarrow> bool" where
  "is_timestamp (VTimestamp s) = True"
| "is_timestamp v = False"

fun is_bytes :: "pyval \<Rightarrow> bool" where
  "is_bytes (VBytes s) = True"
| "is_bytes v = False"

text \<open>\<^verbatim>\<open>hasattr(v, 'dtype')\<close>: numpy scalars, arrays and Series.\<close>

fun has_dtype :: "pyval \<Rightarrow> bool" where
  "has_dtype (VNpInt i) = True"
| "has_dtype (VNpFloat f) = True"
| "has_dtype (VNpBool b) = True"
| "has_dtype (VArray k xs) = True"
| "has_dtype (VSeries k xs) = True"
| "has_dtype v = False"

text \<open>The kind of \<^verbatim>\<open>v.dtype\<close>, for a value that has one.\<close>

fun dtype_kind :: "pyval \<Rightarrow> dkind" where
  "dtype_kind (VNpInt i) = KInt"
| "dtype_kind (VNpFloat f) = KFloat"
| "dtype_kind (VNpBool b) = KBool"
| "dtype_kind (VArray k xs) = k"
| "dtype_kind (VSeries k xs) = k"
| "dtype_kind v = KObject"

text \<open>\<^verbatim>\<open>hasattr(v, 'item')\<close>: the same classes.\<close>

definition has_item :: "pyval \<Rightarrow> bool" where
  "has_item v = has_dtype v"

text \<open>\<^verbatim>\<open>v.size\<close> and the elements of an array or Series.\<close>

fun elems :: "pyval \<Rightarrow> pyval list" where
  "elems (VArray k xs) = xs"
| "elems (VSeries k xs) = xs"
| "elems (VList xs) = xs"
| "elems v = []"

subsection \<open>Library behaviour the sanitizers rely on\<close>

text \<open>
  \<^verbatim>\<open>pandas.isna\<close> on one scalar object: true for \<^verbatim>\<open>None\<close>, a float NaN (Python or
  numpy), \<^verbatim>\<open>NaT\<close> and \<^verbatim>\<open>pandas.NA\<close>.
\<close>

fun is_missing :: "pyval \<Rightarrow> bool" where
  "is_missing VNone = True"
| "is_missing (VFloat NaN) = True"
| "is_missing (VNpFloat NaN) = True"
| "is_missing VNaT = True"
| "is_missing VNA = True"
| "is_missing v = False"

text \<open>
  \<^verbatim>\<open>pandas.api.types.is_scalar\<close>: false for sequences (list, ndarray, Series), for a
  dict and for an object of an unknown class.
\<close>

fun is_scalar :: "pyval \<Rightarrow> bool" where
  "is_scalar (VList xs) = False"
| "is_scalar (VDict kvs) = False"
| "is_scalar (VArray k xs) = False"
| "is_scalar (VSeries k xs) = False"
| "is_scalar (VOther n) = False"
| "is_scalar v = True"

text \<open>
  \<^verbatim>\<open>pandas.isna\<close> turns a list into \<^verbatim>\<open>numpy.asarray(v, dtype=object)\<close> and answers
  with an array of that shape. numpy descends into nested sequences for as long as all
  the sequences of a level have one length: the shape of a list is its length followed
  by the longest common prefix of the shapes of its elements.
\<close>

fun lcp :: "nat list \<Rightarrow> nat list \<Rightarrow> nat list" where
  "lcp (a # as) (b # bs) = (if a = b then a # lcp as bs else [])"
| "lcp as bs = []"

fun common_shape :: "nat list list \<Rightarrow> nat list" where
  "common_shape [] = []"
| "common_shape (s # ss) = fold lcp ss s"

fun np_shape :: "pyval \<Rightarrow> nat list" where
  "np_shape (VList xs) = length xs # common_shape (map np_shape xs)"
| "np_shape (VArray k xs) = [length xs]"
| "np_shape (VSeries k xs) = [length xs]"
| "np_shape v = []"

text \<open>The first element at depth \<open>n\<close>: the only one when every dimension is 1.\<close>

fun np_first :: "nat \<Rightarrow> pyval \<Rightarrow> pyval" where
  "np_first 0 v = v"
| "np_first (Suc n) v = (case elems v of [] \<Rightarrow> v | x # xs \<Rightarrow> np_first n x)"

text \<open>
  \<^verbatim>\<open>bool(pandas.isna(v))\<close>, as an \<^verbatim>\<open>if\<close> or an \<^verbatim>\<open>or\<close> evaluates it. For a list or an
  ndarray the answer is an array, whose truth value is that of its only element; with
  two or more elements numpy raises ValueError (``truth value of an array with more
  than one element is ambiguous''), and with none it raises as well (NumPy 2.2 and
  later; earlier versions warned and answered False). The truth value of a Series is
  always a ValueError.
\<close>

definition ambiguous :: exn where
  "ambiguous = Exn ''ValueError: truth value is ambiguous''"

fun isna_truth :: "pyval \<Rightarrow> exn + bool" where
  "isna_truth (VSeries k xs) = Inl ambiguous"
| "isna_truth (VArray k xs) =
     (case xs of [x] \<Rightarrow> Inr (is_missing x) | _ \<Rightarrow> Inl ambiguous)"
| "isna_truth (VList xs) =
     (let shape = np_shape (VList xs) in
      if prod_list shape = 1 then Inr (is_missing (np_first (length shape) (VList xs)))
      else Inl ambiguous)"
| "isna_truth v = Inr (is_missing v)"

text \<open>Unboxing a numpy scalar to the Python scalar of the same value.\<close>

fun unbox :: "pyval \<Rightarrow> pyval" where
  "unbox (VNpInt i) = VInt i"
| "unbox (VNpFloat f) = VFloat f"
| "unbox (VNpBool b) = VBool b"
| "unbox v = v"

text \<open>
  \<^verbatim>\<open>v.item()\<close>: a numpy scalar unboxes; an ndarray of one element gives that element as
  a Python scalar (the stored object for dtype object); a Series of one element gives
  the element; any other size raises ValueError.
\<close>

definition not_size_one :: exn where
  "not_size_one = Exn ''ValueError: can only convert an array of size 1 to a Python scalar''"

fun py_item :: "pyval \<Rightarrow> exn + pyval" where
  "py_item (VArray k xs) =
     (case xs of [x] \<Rightarrow> Inr (if k = KObject then x else unbox x) | _ \<Rightarrow> Inl not_size_one)"
| "py_item (VSeries k xs) = (case xs of [x] \<Rightarrow> Inr x | _ \<Rightarrow> Inl not_size_one)"
| "py_item v = Inr (unbox v)"

text \<open>
  \<^verbatim>\<open>int(v)\<close>, \<^verbatim>\<open>float(v)\<close> and \<^verbatim>\<open>bool(v)\<close> on a value whose dtype was just tested: a
  numpy scalar, or an ndarray of one element (numpy converts it, with a deprecation
  warning).
\<close>

definition type_error :: exn where
  "type_error = Exn ''TypeError''"

fun py_int :: "pyval \<Rightarrow> exn + pyval" where
  "py_int (VNpInt i) = Inr (VInt i)"
| "py_int (VArray k [VNpInt i]) = Inr (VInt i)"
| "py_int v = Inl type_error"

fun py_float :: "pyval \<Rightarrow> exn + pyval" where
  "py_float (VNpFloat f) = Inr (VFloat f)"
| "py_float (VArray k [VNpFloat f]) = Inr (VFloat f)"
| "py_float v = Inl type_error"

fun py_bool :: "pyval \<Rightarrow> exn + pyval" where
  "py_bool (VNpBool b) = Inr (VBool b)"
| "py_bool (VArray k [VNpBool b]) = Inr (VBool b)"
| "py_bool v = Inl type_error"

text \<open>\<^verbatim>\<open>numpy.isnan(v)\<close> for a floating value.\<close>

fun np_isnan :: "pyval \<Rightarrow> bool" where
  "np_isnan (VNpFloat NaN) = True"
| "np_isnan (VFloat NaN) = True"
| "np_isnan (VArray k [x]) = np_isnan x"
| "np_isnan v = False"

text \<open>
  \<^verbatim>\<open>bytes.decode('utf-8', errors='ignore')\<close>: well-formed UTF-8 sequences are kept, and
  a byte that starts none is dropped (the bytes after it are looked at again, which
  drops the rest of a truncated sequence, since a continuation byte starts nothing).
\<close>

definition byte_in :: "nat \<Rightarrow> nat \<Rightarrow> char \<Rightarrow> bool" where
  "byte_in lo hi c = (lo \<le> of_char c \<and> (of_char c :: nat) \<le> hi)"

definition second_ok3 :: "nat \<Rightarrow> char \<Rightarrow> bool" where
  "second_ok3 n c =
     (if n = 0xE0 then byte_in 0xA0 0xBF c
      else if n = 0xED then byte_in 0x80 0x9F c
      else byte_in 0x80 0xBF c)"

definition second_ok4 :: "nat \<Rightarrow> char \<Rightarrow> bool" where
  "second_ok4 n c =
     (if n = 0xF0 then byte_in 0x90 0xBF c
      else if n = 0xF4 then byte_in 0x80 0x8F c
      else byte_in 0x80 0xBF c)"

fun utf8_ignore :: "string \<Rightarrow> string" where
  "utf8_ignore [] = []"
| "utf8_ignore (b # bs) =
     (if (of_char b :: nat) < 0x80 then b # utf8_ignore bs
      else if byte_in 0xC2 0xDF b then
        (case bs of
           c1 # r \<Rightarrow>
             if byte_in 0x80 0xBF c1 then b # c1 # utf8_ignore r else utf8_ignore bs
         | _ \<Rightarrow> utf8_ignore bs)
      else if byte_in 0xE0 0xEF b then
        (case bs of
           c1 # c2 # r \<Rightarrow>
             if second_ok3 (of_char b) c1 \<and> byte_in 0x80 0xBF c2
             then b # c1 # c2 # utf8_ignore r else utf8_ignore bs
         | _ \<Rightarrow> utf8_ignore bs)
      else if byte_in 0xF0 0xF4 b then
        (case bs of
           c1 # c2 # c3 # r \<Rightarrow>
             if second_ok4 (of_char b) c1 \<and> byte_in 0x80 0xBF c2 \<and> byte_in 0x80 0xBF c3
             then b # c1 # c2 # c3 # utf8_ignore r else utf8_ignore bs
         | _ \<Rightarrow> utf8_ignore bs)
      else utf8_ignore bs)"

text \<open>\<^verbatim>\<open>str(v)\<close> of a UUID, \<^verbatim>\<open>v.isoformat()\<close>, \<^verbatim>\<open>v.decode('utf-8', errors='ignore')\<close>.\<close>

fun text_of :: "pyval \<Rightarrow> string" where
  "text_of (VUUID s) = s"
| "text_of (VTimestamp s) = s"
| "text_of (VDatetime s) = s"
| "text_of (VBytes s) = utf8_ignore s"
| "text_of (VStr s) = s"
| "text_of v = []"

text \<open>
  The \<^verbatim>\<open>except Exception\<close> of one field: the value that was computed, or \<^verbatim>\<open>None\<close>
  when the body raised.
\<close>

fun except_none :: "exn + pyval \<Rightarrow> pyval" where
  "except_none (Inl e) = VNone"
| "except_none (Inr r) = r"

section \<open>Value Sanitizer\<close>

text \<open>
  \<^verbatim>\<open>src/document_utils.py\<close>, \<^verbatim>\<open>sanitize_document\<close>. \<open>sanitize_array\<close> is the branch
  for an ndarray or a Series (lines 22 to 40); \<open>sanitize_value\<close> is the body of the
  \<^verbatim>\<open>try\<close> for one field; \<open>sanitize_fields\<close> is the loop over \<^verbatim>\<open>doc.items()\<close>, which
  stores \<^verbatim>\<open>None\<close> for a field whose body raised; \<open>sanitize_elems\<close> is the list
  comprehension over the items of a list.
\<close>

fun sanitize_elem :: "pyval \<Rightarrow> exn + pyval" where
  "sanitize_elem x =
     (case isna_truth x of
        Inl e \<Rightarrow> Inl e
      | Inr b \<Rightarrow> if b then Inr VNone else if has_item x then py_item x else Inr x)"

fun sanitize_elem_list :: "pyval list \<Rightarrow> exn + pyval list" where
  "sanitize_elem_list [] = Inr []"
| "sanitize_elem_list (x # xs) =
     (case sanitize_elem x of
        Inl e \<Rightarrow> Inl e
      | Inr y \<Rightarrow> (case sanitize_elem_list xs of Inl e \<Rightarrow> Inl e | Inr ys \<Rightarrow> Inr (y # ys)))"

definition sanitize_array :: "pyval \<Rightarrow> exn + pyval" where
  "sanitize_array v =
     (if length (elems v) = 0 then Inr (VList [])
      else if length (elems v) = 1 then
        (case py_item v of
           Inl e \<Rightarrow> Inl e
         | Inr single_val \<Rightarrow>
             (case isna_truth single_val of
                Inl e \<Rightarrow> Inl e
              | Inr b \<Rightarrow> Inr (if b then VNone else single_val)))
      else
        (case sanitize_elem_list (elems v) of Inl e \<Rightarrow> Inl e | Inr ys \<Rightarrow> Inr (VList ys)))"

fun sanitize_document :: "pyval \<Rightarrow> exn + pyval"
  and sanitize_value :: "pyval \<Rightarrow> exn + pyval"
  and sanitize_fields :: "pydict \<Rightarrow> pydict \<Rightarrow> pydict"
  and sanitize_elems :: "pyval list \<Rightarrow> exn + pyval list"
where
  "sanitize_document doc =
     (case doc of
        VDict kvs \<Rightarrow> Inr (VDict (sanitize_fields kvs []))
      | _ \<Rightarrow> Inr doc)"
| "sanitize_value v =
     (if is_ndarray v \<or> is_series v then sanitize_array v
      else if v = VNone \<or> (is_scalar v \<and> is_missing v) then Inr VNone
      else if has_dtype v \<and> dtype_kind v = KInt then py_int v
      else if has_dtype v \<and> dtype_kind v = KFloat then
        (if \<not> np_isnan v then py_float v else Inr VNone)
      else if has_dtype v \<and> dtype_kind v = KBool then py_bool v
      else if is_uuid v then Inr (VStr (text_of v))
      else if is_timestamp v then (if \<not> is_missing v then Inr (VStr (text_of v)) else Inr VNone)
      else if is_bytes v then Inr (VStr (text_of v))
      else
        (case v of
           VDict kvs \<Rightarrow> sanitize_document (VDict kvs)
         | VList xs \<Rightarrow>
             (case sanitize_elems xs of Inl e \<Rightarrow> Inl e | Inr ys \<Rightarrow> Inr (VList ys))
         | _ \<Rightarrow> Inr v))"
| "sanitize_fields [] sanitized = sanitized"
| "sanitize_fields ((k, v) # rest) sanitized =
     sanitize_fields rest
       (dict_set sanitized k (except_none (sanitize_value v)))"
| "sanitize_elems [] = Inr []"
| "sanitize_elems (item # items) =
     (case sanitize_document item of
        Inl e \<Rightarrow> Inl e
      | Inr y \<Rightarrow> (case sanitize_elems items of Inl e \<Rightarrow> Inl e | Inr ys \<Rightarrow> Inr (y # ys)))"

text \<open>
  \<^verbatim>\<open>src/utils.py\<close>, \<^verbatim>\<open>sanitize_document\<close>: the second copy. It has no branch for an
  ndarray or a Series, and its first test is \<^verbatim>\<open>v is None or pd.isna(v)\<close> on every value,
  a list included.
\<close>

fun utils_sanitize_document :: "pyval \<Rightarrow> exn + pyval"
  and utils_sanitize_value :: "pyval \<Rightarrow> exn + pyval"
  and utils_sanitize_fields :: "pydict \<Rightarrow> pydict \<Rightarrow> pydict"
  and utils_sanitize_elems :: "pyval list \<Rightarrow> exn + pyval list"
where
  "utils_sanitize_document doc =
     (case doc of
        VDict kvs \<Rightarrow> Inr (VDict (utils_sanitize_fields kvs []))
      | _ \<Rightarrow> Inr doc)"
| "utils_sanitize_value v =
     (case (if v = VNone then Inr True else isna_truth v) of
        Inl e \<Rightarrow> Inl e
      | Inr missing \<Rightarrow>
          if missing then Inr VNone
          else if has_dtype v \<and> dtype_kind v = KInt then py_int v
          else if has_dtype v \<and> dtype_kind v = KFloat then
            (if \<not> np_isnan v then py_float v else Inr VNone)
          else if has_dtype v \<and> dtype_kind v = KBool then py_bool v
          else if is_uuid v then Inr (VStr (text_of v))
          else if is_timestamp v then
            (if \<not> is_missing v then Inr (VStr (text_of v)) else Inr VNone)
          else if is_bytes v then Inr (VStr (text_of v))
          else
            (case v of
               VDict kvs \<Rightarrow> utils_sanitize_document (VDict kvs)
             | VList xs \<Rightarrow>
                 (case utils_sanitize_elems xs of
                    Inl e \<Rightarrow> Inl e
                  | Inr ys \<Rightarrow> Inr (VList ys))
             | _ \<Rightarrow> Inr v))"
| "utils_sanitize_fields [] sanitized = sanitized"
| "utils_sanitize_fields ((k, v) # rest) sanitized =
     utils_sanitize_fields rest
       (dict_set sanitized k (except_none (utils_sanitize_value v)))"
| "utils_sanitize_elems [] = Inr []"
| "utils_sanitize_elems (item # items) =
     (case utils_sanitize_document item of
        Inl e \<Rightarrow> Inl e
      | Inr y \<Rightarrow>
          (case utils_sanitize_elems items of Inl e \<Rightarrow> Inl e | Inr ys \<Rightarrow> Inr (y # ys)))"

section \<open>Batch sync passes\<close>

subsection \<open>Collaborators\<close>

text \<open>
  A bulk action is the index name, the \<^verbatim>\<open>_id\<close> and the \<^verbatim>\<open>_source\<close> document (the
  \<^verbatim>\<open>_op_type\<close> is always \<^verbatim>\<open>index\<close>). The calls made on the index store are recorded
  in order. The world outside the program is a record of answers: \<open>w_str\<close> is \<^verbatim>\<open>str\<close>
  on an object that is neither a string nor a UUID, \<open>w_json_loads\<close> is \<^verbatim>\<open>json.loads\<close>
  (\<open>None\<close> for a JSONDecodeError), \<open>w_now n\<close> is the text of the \<open>n\<close>-th reading of
  \<^verbatim>\<open>datetime.utcnow().isoformat()\<close>, and the others are the answers of the index store
  (\<open>Inl\<close> when the call raises).
\<close>

record action =
  a_index :: string
  a_id :: string
  a_source :: pyval

datatype es_call =
    EsCreateIndex string
  | EsBulk "action list" bool
  | EsIndex action bool

record world =
  w_str :: "pyval \<Rightarrow> exn + string"
  w_json_loads :: "string \<Rightarrow> pyval option"
  w_now :: "nat \<Rightarrow> string"
  w_create_index :: "string \<Rightarrow> exn option"
  w_bulk :: "action list \<Rightarrow> bool \<Rightarrow> exn + nat \<times> pyval list"
  w_index :: "action \<Rightarrow> exn + string"

record pass_state =
  successful_docs :: nat
  failed_docs :: nat
  es_calls :: "es_call list"
  clock_reads :: nat

definition pass_init :: pass_state where
  "pass_init = \<lparr>successful_docs = 0, failed_docs = 0, es_calls = [], clock_reads = 0\<rparr>"

definition bind_exn :: "exn + 'a \<Rightarrow> ('a \<Rightarrow> exn + 'b) \<Rightarrow> exn + 'b" where
  "bind_exn m f = (case m of Inl e \<Rightarrow> Inl e | Inr x \<Rightarrow> f x)"

subsection \<open>More library behaviour\<close>

text \<open>\<^verbatim>\<open>str(v)\<close>, also what an f-string puts for \<^verbatim>\<open>{v}\<close>.\<close>

definition py_str :: "world \<Rightarrow> pyval \<Rightarrow> exn + string" where
  "py_str w v = (case v of VStr s \<Rightarrow> Inr s | VUUID s \<Rightarrow> Inr s | _ \<Rightarrow> w_str w v)"

text \<open>
  The truth value of an object in \<^verbatim>\<open>x if v else y\<close>. A float NaN is true;
  \<^verbatim>\<open>pandas.NA\<close> raises TypeError; an ndarray has the truth value of its only element
  and raises for any other size; a Series always raises.
\<close>

fun py_truth :: "pyval \<Rightarrow> exn + bool" where
  "py_truth VNone = Inr False"
| "py_truth (VBool b) = Inr b"
| "py_truth (VInt i) = Inr (i \<noteq> 0)"
| "py_truth (VFloat f) = Inr (f \<noteq> Fin 0)"
| "py_truth (VStr s) = Inr (s \<noteq> [])"
| "py_truth (VBytes s) = Inr (s \<noteq> [])"
| "py_truth VNA = Inl (Exn ''TypeError: boolean value of NA is ambiguous'')"
| "py_truth (VNpInt i) = Inr (i \<noteq> 0)"
| "py_truth (VNpFloat f) = Inr (f \<noteq> Fin 0)"
| "py_truth (VNpBool b) = Inr b"
| "py_truth (VList xs) = Inr (xs \<noteq> [])"
| "py_truth (VDict kvs) = Inr (kvs \<noteq> [])"
| "py_truth (VArray k xs) = (case xs of [x] \<Rightarrow> py_truth x | _ \<Rightarrow> Inl ambiguous)"
| "py_truth (VSeries k xs) = Inl ambiguous"
| "py_truth v = Inr True"

text \<open>\<^verbatim>\<open>bool(pandas.notna(v))\<close>.\<close>

definition notna_truth :: "pyval \<Rightarrow> exn + bool" where
  "notna_truth v = bind_exn (isna_truth v) (\<lambda>b. Inr (\<not> b))"

text \<open>Whether an object can be a dict key: lists, dicts, arrays and Series cannot.\<close>

fun is_hashable :: "pyval \<Rightarrow> bool" where
  "is_hashable (VList xs) = False"
| "is_hashable (VDict kvs) = False"
| "is_hashable (VArray k xs) = False"
| "is_hashable (VSeries k xs) = False"
| "is_hashable v = True"

text \<open>
  \<^verbatim>\<open>json.dumps(v, cls=CustomJSONEncoder)\<close> succeeds (\<^verbatim>\<open>json_encoder.py\<close>): the
  encoder knows \<^verbatim>\<open>None\<close>, bool, int, float and its subclass \<^verbatim>\<open>numpy.float64\<close>, str,
  lists and dicts; \<^verbatim>\<open>CustomJSONEncoder.default\<close> adds UUID, Timestamp and datetime
  (\<^verbatim>\<open>NaT\<close> is a datetime); any other object is a TypeError.
\<close>

fun json_dumps_ok :: "pyval \<Rightarrow> bool" where
  "json_dumps_ok VNone = True"
| "json_dumps_ok (VBool b) = True"
| "json_dumps_ok (VInt i) = True"
| "json_dumps_ok (VFloat f) = True"
| "json_dumps_ok (VNpFloat f) = True"
| "json_dumps_ok (VStr s) = True"
| "json_dumps_ok (VUUID s) = True"
| "json_dumps_ok (VTimestamp s) = True"
| "json_dumps_ok (VDatetime s) = True"
| "json_dumps_ok VNaT = True"
| "json_dumps_ok (VList xs) = list_all json_dumps_ok xs"
| "json_dumps_ok (VDict kvs) = list_all (\<lambda>kv. json_dumps_ok (snd kv)) kvs"
| "json_dumps_ok v = False"

text \<open>
  \<^verbatim>\<open>json.loads(json.dumps(v, default=str))\<close>: what the encoder knows comes back as it
  was (a \<^verbatim>\<open>numpy.float64\<close> as a float), and any other object comes back as the string
  \<^verbatim>\<open>str\<close> gives for it.
\<close>

fun json_default_roundtrip :: "world \<Rightarrow> pyval \<Rightarrow> exn + pyval"
  and json_default_roundtrip_list :: "world \<Rightarrow> pyval list \<Rightarrow> exn + pyval list"
  and json_default_roundtrip_items :: "world \<Rightarrow> pydict \<Rightarrow> exn + pydict"
where
  "json_default_roundtrip w VNone = Inr VNone"
| "json_default_roundtrip w (VBool b) = Inr (VBool b)"
| "json_default_roundtrip w (VInt i) = Inr (VInt i)"
| "json_default_roundtrip w (VFloat f) = Inr (VFloat f)"
| "json_default_roundtrip w (VNpFloat f) = Inr (VFloat f)"
| "json_default_roundtrip w (VStr s) = Inr (VStr s)"
| "json_default_roundtrip w (VList xs) =
     (case json_default_roundtrip_list w xs of Inl e \<Rightarrow> Inl e | Inr ys \<Rightarrow> Inr (VList ys))"
| "json_default_roundtrip w (VDict kvs) =
     (case json_default_roundtrip_items w kvs of Inl e \<Rightarrow> Inl e | Inr r \<Rightarrow> Inr (VDict r))"
| "json_default_roundtrip w v =
     (case py_str w v of Inl e \<Rightarrow> Inl e | Inr s \<Rightarrow> Inr (VStr s))"
| "json_default_roundtrip_list w [] = Inr []"
| "json_default_roundtrip_list w (x # xs) =
     (case json_default_roundtrip w x of
        Inl e \<Rightarrow> Inl e
      | Inr y \<Rightarrow>
          (case json_default_roundtrip_list w xs of
             Inl e \<Rightarrow> Inl e
           | Inr ys \<Rightarrow> Inr (y # ys)))"
| "json_default_roundtrip_items w [] = Inr []"
| "json_default_roundtrip_items w ((k, v) # kvs) =
     (case json_default_roundtrip w v of
        Inl e \<Rightarrow> Inl e
      | Inr y \<Rightarrow>
          (case json_default_roundtrip_items w kvs of
             Inl e \<Rightarrow> Inl e
           | Inr r \<Rightarrow> Inr ((k, y) # r)))"

subsection \<open>Rows\<close>

text \<open>
  A row of a DataFrame is the dict of its cells by column name. \<^verbatim>\<open>row[k]\<close> raises
  KeyError for a missing column, \<^verbatim>\<open>row.get(k)\<close> gives \<^verbatim>\<open>None\<close>.
\<close>

definition row_getitem :: "pydict \<Rightarrow> string \<Rightarrow> exn + pyval" where
  "row_getitem row k =
     (case dict_get row k of None \<Rightarrow> Inl (Exn (''KeyError: '' @ k)) | Some v \<Rightarrow> Inr v)"

definition row_get :: "pydict \<Rightarrow> string \<Rightarrow> pyval" where
  "row_get row k = (case dict_get row k of None \<Rightarrow> VNone | Some v \<Rightarrow> v)"

text \<open>\<^verbatim>\<open>if isinstance(x, uuid.UUID): x = str(x)\<close>.\<close>

definition uuid_to_str :: "pyval \<Rightarrow> pyval" where
  "uuid_to_str x = (if is_uuid x then VStr (text_of x) else x)"

text \<open>A field of a document: \<^verbatim>\<open>doc[k]\<close> for a dict that has the key.\<close>

fun doc_field :: "pyval \<Rightarrow> string \<Rightarrow> pyval option" where
  "doc_field (VDict kvs) k = dict_get kvs k"
| "doc_field v k = None"

subsection \<open>Serialising one document\<close>

text \<open>
  The end of the body of the row loop, the same in every pass (for instance
  \<^verbatim>\<open>src/data_sync.py\<close> lines 117 to 147): sanitize, check that the document
  serialises, fall back once to \<^verbatim>\<open>default=str\<close>. \<open>None\<close> is a document given up on,
  which the caller counts in \<^verbatim>\<open>failed_docs\<close>.
\<close>

definition make_action :: "world \<Rightarrow> string \<Rightarrow> string \<Rightarrow> pydict \<Rightarrow> action option" where
  "make_action w index_name document_id doc =
     (case sanitize_document (VDict doc) of
        Inl e \<Rightarrow> None
      | Inr sanitized_doc \<Rightarrow>
          if json_dumps_ok sanitized_doc then
            Some \<lparr>a_index = index_name, a_id = document_id, a_source = sanitized_doc\<rparr>
          else
            (case json_default_roundtrip w sanitized_doc of
               Inl e \<Rightarrow> None
             | Inr reloaded \<Rightarrow>
                 Some \<lparr>a_index = index_name, a_id = document_id, a_source = reloaded\<rparr>))"

subsection \<open>The data-source mapper\<close>

text \<open>
  \<^verbatim>\<open>src/data_sync.py\<close>, \<^verbatim>\<open>sync_data_sources\<close>, lines 85 to 151: the body of the row
  loop. \<open>str_or_none\<close> is \<^verbatim>\<open>str(x) if x else None\<close>.
\<close>

definition str_or_none :: "world \<Rightarrow> pyval \<Rightarrow> exn + pyval" where
  "str_or_none w x =
     bind_exn (py_truth x) (\<lambda>t.
       if t then bind_exn (py_str w x) (\<lambda>s. Inr (VStr s)) else Inr VNone)"

definition data_source_doc :: "world \<Rightarrow> string \<Rightarrow> pydict \<Rightarrow> exn + string \<times> pydict" where
  "data_source_doc w index_timestamp row =
     bind_exn (row_getitem row ''id'') (\<lambda>id0.
     let data_source_id = uuid_to_str id0 in
     bind_exn (py_str w data_source_id) (\<lambda>id_str.
     bind_exn (str_or_none w (row_get row ''moduleId'')) (\<lambda>module_id.
     bind_exn (str_or_none w (row_get row ''statusId'')) (\<lambda>status_id.
     bind_exn (str_or_none w (row_get row ''voidStatusId'')) (\<lambda>void_status_id.
     bind_exn (py_str w data_source_id) (\<lambda>id_text.
     let document_id = id_text @ ''_'' @ index_timestamp in
     Inr (document_id,
       [(''data_source_id'', VStr id_str),
        (''data_source_name'', row_get row ''name''),
        (''data_source_description'', row_get row ''description''),
        (''data_source_dataMap'', row_get row ''dataMap''),
        (''data_source_entityName'', row_get row ''entityName''),
        (''data_source_coverVisibleData'', row_get row ''coverVisibleData''),
        (''data_source_gatewayType'', row_get row ''gatewayType''),
        (''data_source_gatewayId'', row_get row ''gatewayId''),
        (''data_source_moduleId'', module_id),
        (''data_source_statusId'', status_id),
        (''data_source_voidStatusId'', void_status_id),
        (''data_source_dailyLimit'', row_get row ''dailyLimit''),
        (''data_source_wipEnabled'', row_get row ''wipEnabled''),
        (''data_source_wipValue'', row_get row ''wipValue''),
        (''data_source_createdAt'', row_get row ''createdAt''),
        (''data_source_updatedAt'', row_get row ''updatedAt''),
        (''indexed_at'', VStr index_timestamp),
        (''document_id'', VStr document_id)])))))))"

definition data_source_action :: "world \<Rightarrow> string \<Rightarrow> string \<Rightarrow> pydict \<Rightarrow> action option" where
  "data_source_action w index_name index_timestamp row =
     (case data_source_doc w index_timestamp row of
        Inl e \<Rightarrow> None
      | Inr (document_id, doc) \<Rightarrow> make_action w index_name document_id doc)"

subsection \<open>The ticket mapper\<close>

text \<open>
  \<^verbatim>\<open>src/document_utils.py\<close>, \<^verbatim>\<open>process_ticket_labels\<close>: the label rows grouped by
  ticket id. The result maps a ticket id to the list of its label documents, in the
  order of first appearance. Nothing catches an exception here.
\<close>

type_synonym label_map = "(pyval \<times> pyval list) list"

fun label_append :: "label_map \<Rightarrow> pyval \<Rightarrow> pyval \<Rightarrow> label_map" where
  "label_append [] t label = [(t, [label])]"
| "label_append ((t', ls) # m) t label =
     (if t' = t then (t', ls @ [label]) # m else (t', ls) # label_append m t label)"

fun process_ticket_labels_loop :: "pydict list \<Rightarrow> label_map \<Rightarrow> exn + label_map" where
  "process_ticket_labels_loop [] labels_by_ticket = Inr labels_by_ticket"
| "process_ticket_labels_loop (row # rows) labels_by_ticket =
     bind_exn (row_getitem row ''ticketId'') (\<lambda>t0.
     let ticket_id = uuid_to_str t0 in
     if \<not> is_hashable ticket_id then Inl (Exn ''TypeError: unhashable type'') else
     bind_exn (row_getitem row ''label_id'') (\<lambda>l0.
     let label_id = uuid_to_str l0 in
     bind_exn (row_getitem row ''label_name'') (\<lambda>label_name.
     bind_exn (row_getitem row ''color'') (\<lambda>color.
     bind_exn (notna_truth color) (\<lambda>has_color.
       process_ticket_labels_loop rows
         (label_append labels_by_ticket ticket_id
            (VDict [(''id'', label_id), (''name'', label_name),
                    (''color'', if has_color then color else VNone)])))))))"

definition process_ticket_labels :: "pydict list \<Rightarrow> exn + label_map" where
  "process_ticket_labels df_labels = process_ticket_labels_loop df_labels []"

text \<open>\<^verbatim>\<open>labels_by_ticket.get(ticket_id, [])\<close>.\<close>

definition labels_get :: "label_map \<Rightarrow> pyval \<Rightarrow> exn + pyval list" where
  "labels_get labels_by_ticket ticket_id =
     (if \<not> is_hashable ticket_id then Inl (Exn ''TypeError: unhashable type'')
      else Inr (case map_of labels_by_ticket ticket_id of None \<Rightarrow> [] | Some ls \<Rightarrow> ls))"

text \<open>
  \<^verbatim>\<open>src/ticket_sync.py\<close>, \<^verbatim>\<open>sync_denormalized_tickets\<close>, lines 99 to 175: the body of
  the row loop. \<open>copy_columns\<close> is the loop over \<^verbatim>\<open>batch_df.columns\<close> (lines 107 to
  119), \<open>parse_ticket_data\<close> the handling of the JSON column (lines 122 to 128).
\<close>

definition copy_cell :: "pyval \<Rightarrow> exn + pyval" where
  "copy_cell val =
     (if is_uuid val then Inr (VStr (text_of val))
      else if is_timestamp val then
        (if \<not> is_missing val then Inr (VStr (text_of val)) else Inr VNone)
      else bind_exn (isna_truth val) (\<lambda>b. if b then Inr VNone else Inr val))"

fun copy_columns :: "string list \<Rightarrow> pydict \<Rightarrow> pydict \<Rightarrow> exn + pydict" where
  "copy_columns [] row doc = Inr doc"
| "copy_columns (col # cols) row doc =
     bind_exn (row_getitem row col) (\<lambda>val.
     bind_exn (copy_cell val) (\<lambda>c. copy_columns cols row (dict_set doc col c)))"

definition parse_ticket_data :: "world \<Rightarrow> pydict \<Rightarrow> exn + pydict" where
  "parse_ticket_data w doc =
     (case dict_get doc ''ticket_data'' of
        Some (VStr s) \<Rightarrow>
          (case w_json_loads w s of
             None \<Rightarrow> Inr doc
           | Some parsed_data \<Rightarrow>
               bind_exn (sanitize_document parsed_data) (\<lambda>d.
                 Inr (dict_set doc ''ticket_data'' d)))
      | _ \<Rightarrow> Inr doc)"

definition ticket_doc ::
  "world \<Rightarrow> label_map \<Rightarrow> string list \<Rightarrow> string \<Rightarrow> pydict \<Rightarrow> exn + string \<times> pydict" where
  "ticket_doc w labels_by_ticket columns index_timestamp row =
     bind_exn (row_getitem row ''ticket_id'') (\<lambda>t0.
     let ticket_id = uuid_to_str t0 in
     bind_exn (copy_columns columns row []) (\<lambda>doc1.
     bind_exn (parse_ticket_data w doc1) (\<lambda>doc2.
     bind_exn (labels_get labels_by_ticket ticket_id) (\<lambda>labels.
     let doc3 = dict_set doc2 ''labels'' (VList labels);
         doc4 = dict_set doc3 ''indexed_at'' (VStr index_timestamp) in
     bind_exn (py_str w ticket_id) (\<lambda>id_text.
     let document_id = id_text @ ''_'' @ index_timestamp in
     Inr (document_id, dict_set doc4 ''document_id'' (VStr document_id)))))))"

definition ticket_action ::
  "world \<Rightarrow> label_map \<Rightarrow> string list \<Rightarrow> string \<Rightarrow> string \<Rightarrow> pydict \<Rightarrow> action option" where
  "ticket_action w labels_by_ticket columns index_name index_timestamp row =
     (case ticket_doc w labels_by_ticket columns index_timestamp row of
        Inl e \<Rightarrow> None
      | Inr (document_id, doc) \<Rightarrow> make_action w index_name document_id doc)"

subsection \<open>The batch loop\<close>

text \<open>
  \<^verbatim>\<open>src/es_connector.py\<close>, \<^verbatim>\<open>ElasticsearchConnector.bulk_index\<close>: the answer of the
  bulk helper, or \<^verbatim>\<open>(0, [])\<close> when the helper raised.
\<close>

definition bulk_index :: "world \<Rightarrow> action list \<Rightarrow> bool \<Rightarrow> nat \<times> pyval list" where
  "bulk_index w actions refresh =
     (case w_bulk w actions refresh of
        Inr (success, failed) \<Rightarrow> (success, failed)
      | Inl e \<Rightarrow> (0, []))"

text \<open>
  The loops of a pass, the same text in \<^verbatim>\<open>sync_data_sources\<close> (\<^verbatim>\<open>src/data_sync.py\<close>
  lines 77 to 176) and in \<^verbatim>\<open>sync_denormalized_tickets\<close> (\<^verbatim>\<open>src/ticket_sync.py\<close> lines
  92 to 200); \<open>mapper\<close> is the body of the row loop. \<open>row_loop\<close> is the loop over the
  rows of a batch, \<open>sync_batch\<close> the body of the loop over the batches, \<open>batch_loop\<close>
  that loop for a positive step. The calls of \<^verbatim>\<open>get_document_count\<close> only feed the
  log and are left out.
\<close>

fun row_loop ::
  "(pydict \<Rightarrow> action option) \<Rightarrow> pydict list \<Rightarrow> action list \<Rightarrow> pass_state
    \<Rightarrow> action list \<times> pass_state" where
  "row_loop mapper [] bulk_actions st = (bulk_actions, st)"
| "row_loop mapper (row # rows) bulk_actions st =
     (case mapper row of
        Some a \<Rightarrow> row_loop mapper rows (bulk_actions @ [a]) st
      | None \<Rightarrow> row_loop mapper rows bulk_actions (st\<lparr>failed_docs := failed_docs st + 1\<rparr>))"

definition sync_batch ::
  "world \<Rightarrow> (pydict \<Rightarrow> action option) \<Rightarrow> pydict list \<Rightarrow> nat \<Rightarrow> nat \<Rightarrow> pass_state
    \<Rightarrow> pass_state" where
  "sync_batch w mapper df batch_size batch_start st =
     (let total_count = length df;
          batch_end = min (batch_start + batch_size) total_count;
          batch_df = take (batch_end - batch_start) (drop batch_start df)
      in case row_loop mapper batch_df [] st of
           (bulk_actions, st1) \<Rightarrow>
             if bulk_actions \<noteq> [] then
               (let refresh = (batch_end = total_count)
                in case bulk_index w bulk_actions refresh of
                     (success_count, failed_items) \<Rightarrow>
                       st1\<lparr>successful_docs := successful_docs st1 + success_count,
                           failed_docs := failed_docs st1 + length failed_items,
                           es_calls := es_calls st1 @ [EsBulk bulk_actions refresh]\<rparr>)
             else st1)"

function batch_loop ::
  "world \<Rightarrow> (pydict \<Rightarrow> action option) \<Rightarrow> pydict list \<Rightarrow> nat \<Rightarrow> nat \<Rightarrow> pass_state
    \<Rightarrow> pass_state" where
  "batch_loop w mapper df batch_size batch_start st =
     (if batch_start < length df \<and> 0 < batch_size then
        batch_loop w mapper df batch_size (batch_start + batch_size)
          (sync_batch w mapper df batch_size batch_start st)
      else st)"
  by pat_completeness auto
termination
  by (relation "measure (\<lambda>(w, mapper, df, batch_size, batch_start, st). length df - batch_start)")
    auto

text \<open>
  From the size of the batches to the end of the loop: the batch size is the configured
  one capped at 50, the timestamp of the pass is read, and \<^verbatim>\<open>range(0, total, size)\<close>
  raises ValueError for a size of zero and is empty for a negative one. \<open>mapper\<close> takes
  the timestamp.
\<close>

definition sync_rows ::
  "world \<Rightarrow> (string \<Rightarrow> pydict \<Rightarrow> action option) \<Rightarrow> int option \<Rightarrow> pydict list \<Rightarrow> pass_state
    \<Rightarrow> exn + pass_state" where
  "sync_rows w mapper cfg_batch_size df st =
     (let batch_size = min (case cfg_batch_size of None \<Rightarrow> 100 | Some b \<Rightarrow> b) 50;
          index_timestamp = w_now w (clock_reads st);
          st1 = st\<lparr>clock_reads := clock_reads st + 1\<rparr>
      in if batch_size = 0 then Inl (Exn ''ValueError: range() arg 3 must not be zero'')
         else if batch_size < 0 then Inr st1
         else Inr (batch_loop w (mapper index_timestamp) df (nat batch_size) 0 st1))"

text \<open>
  \<^verbatim>\<open>sync_data_sources\<close>: create the index, fetch the rows (\<^verbatim>\<open>None\<close> when the query
  failed), return at once when there are none, run the loops.
\<close>

definition create_index :: "world \<Rightarrow> string \<Rightarrow> pass_state \<Rightarrow> exn + pass_state" where
  "create_index w index_name st =
     (case w_create_index w index_name of
        Some e \<Rightarrow> Inl e
      | None \<Rightarrow> Inr (st\<lparr>es_calls := es_calls st @ [EsCreateIndex index_name]\<rparr>))"

definition sync_data_sources ::
  "world \<Rightarrow> string \<Rightarrow> int option \<Rightarrow> pydict list option \<Rightarrow> pass_state \<Rightarrow> exn + pass_state" where
  "sync_data_sources w index_prefix cfg_batch_size df_data_sources st =
     (let index_name = index_prefix @ ''data_sources'' in
      bind_exn (create_index w index_name st) (\<lambda>st1.
        case df_data_sources of
          None \<Rightarrow> Inr st1
        | Some df \<Rightarrow>
            if length df = 0 then Inr st1
            else sync_rows w (data_source_action w index_name) cfg_batch_size df st1))"

text \<open>
  \<^verbatim>\<open>sync_denormalized_tickets\<close> of \<^verbatim>\<open>src/ticket_sync.py\<close>. \<open>columns\<close> are the columns
  of the ticket rows.
\<close>

definition sync_denormalized_tickets ::
  "world \<Rightarrow> string \<Rightarrow> int option \<Rightarrow> string list \<Rightarrow> pydict list option \<Rightarrow> pydict list option
    \<Rightarrow> pass_state \<Rightarrow> exn + pass_state" where
  "sync_denormalized_tickets w index_prefix cfg_batch_size columns df_tickets df_labels st =
     (let index_name = index_prefix @ ''denormalized_tickets'' in
      bind_exn (create_index w index_name st) (\<lambda>st1.
        case df_tickets of
          None \<Rightarrow> Inr st1
        | Some df \<Rightarrow>
            if length df = 0 then Inr st1
            else
              bind_exn (case df_labels of None \<Rightarrow> Inr [] | Some l \<Rightarrow> process_ticket_labels l)
                (\<lambda>labels_by_ticket.
                   sync_rows w (ticket_action w labels_by_ticket columns index_name)
                     cfg_batch_size df st1)))"

subsection \<open>The dispatch of the older ticket pass\<close>

text \<open>
  \<^verbatim>\<open>ticket_sync.py\<close> at the top of the repository, \<^verbatim>\<open>sync_denormalized_tickets\<close>, lines
  499 to 536. The \<^verbatim>\<open>try\<close> calls \<^verbatim>\<open>helpers.bulk\<close>, but the module imports only the name
  \<^verbatim>\<open>bulk\<close> (line 6): evaluating \<^verbatim>\<open>helpers\<close> raises NameError before any request
  is made, and the \<^verbatim>\<open>except Exception\<close> branch indexes every action of the batch on
  its own and counts it.
\<close>

fun legacy_index_each :: "world \<Rightarrow> action list \<Rightarrow> pass_state \<Rightarrow> pass_state" where
  "legacy_index_each w [] st = st"
| "legacy_index_each w (a # as) st =
     legacy_index_each w as
       (let st1 = st\<lparr>es_calls := es_calls st @ [EsIndex a True]\<rparr>
        in case w_index w a of
             Inr result \<Rightarrow>
               if result = ''created'' \<or> result = ''updated''
               then st1\<lparr>successful_docs := successful_docs st1 + 1\<rparr>
               else st1\<lparr>failed_docs := failed_docs st1 + 1\<rparr>
           | Inl e \<Rightarrow> st1\<lparr>failed_docs := failed_docs st1 + 1\<rparr>)"

definition legacy_dispatch :: "world \<Rightarrow> string \<Rightarrow> action list \<Rightarrow> pass_state \<Rightarrow> pass_state" where
  "legacy_dispatch w index_name actions st =
     (if actions \<noteq> [] then legacy_index_each w actions st else st)"

subsection \<open>A small world to run the passes in\<close>

text \<open>
  An index store that accepts everything, and one whose bulk helper raises; a clock that
  always reads the same instant; data-source rows as the unit tests have them.
\<close>

definition demo_world :: world where
  "demo_world =
     \<lparr>w_str = (\<lambda>v. Inr ''object''),
      w_json_loads = (\<lambda>s. None),
      w_now = (\<lambda>n. ''2024-01-01T00:00:00''),
      w_create_index = (\<lambda>name. None),
      w_bulk = (\<lambda>actions refresh. Inr (length actions, [])),
      w_index = (\<lambda>a. Inr ''created'')\<rparr>"

definition unreachable_world :: world where
  "unreachable_world =
     demo_world\<lparr>w_bulk := (\<lambda>actions refresh. Inl (Exn ''ConnectionError''))\<rparr>"

definition demo_columns :: "string list" where
  "demo_columns = [''ticket_id'', ''ticket_number'', ''status_id'', ''status_name'']"

definition demo_tickets :: "pydict list" where
  "demo_tickets =
     [[(''ticket_id'', VStr ''A''), (''ticket_number'', VNpInt 1001),
       (''status_id'', VStr ''S1''), (''status_name'', VStr ''Open'')],
      [(''ticket_id'', VStr ''B''), (''ticket_number'', VNpInt 1002),
       (''status_id'', VNone), (''status_name'', VNone)]]"

definition demo_labels :: "pydict list" where
  "demo_labels =
     [[(''ticketId'', VStr ''A''), (''label_id'', VStr ''L1''),
       (''label_name'', VStr ''Bug''), (''color'', VStr ''red'')],
      [(''ticketId'', VStr ''A''), (''label_id'', VStr ''L2''),
       (''label_name'', VStr ''Urgent''), (''color'', VStr ''yellow'')]]"




definition demo_rows :: "pydict list" where
  "demo_rows =
     [[(''id'', VStr ''ds1''), (''name'', VStr ''Source 1'')],
      [(''id'', VStr ''ds2''), (''name'', VStr ''Source 2'')],
      [(''id'', VStr ''ds3''), (''name'', VStr ''Source 3'')]]"

section \<open>Latest status of a ticket\<close>

text \<open>
  \<^verbatim>\<open>src/db_connector.py\<close>, \<^verbatim>\<open>get_tickets_and_labels\<close>, lines 261 to 294: the resolver is
  the common table expression \<^verbatim>\<open>latest_status\<close> of the SQL query, modelled by its
  relational meaning. A table is the list of its rows in the order the database happens
  to present them; identifiers are numbers in their sort order, a timestamp is a number
  of microseconds, and \<open>ts_deleted\<close> says that \<^verbatim>\<open>deletedAt\<close> is not null.
  \<open>latest_status_from\<close> is \<^verbatim>\<open>FROM "TicketStatus" ts JOIN "Status" s ON ts."statusId" = s.id
  WHERE ts."deletedAt" IS NULL\<close>; the sort is \<^verbatim>\<open>ORDER BY ts."ticketId", ts."createdAt" DESC\<close>;
  \<open>distinct_on_ticketId\<close> is \<^verbatim>\<open>SELECT DISTINCT ON (ts."ticketId")\<close>, which keeps the first
  row of each run of rows with one ticket id; \<open>current_status\<close> is the list of all the
  rows that \<^verbatim>\<open>LEFT JOIN latest_status ls ON t.id = ls."ticketId"\<close> matches with a ticket
  (when there is none the ticket gets null status columns).
\<close>

record ticket_status_row =
  ts_ticketId :: nat
  ts_statusId :: nat
  ts_createdAt :: int
  ts_deleted :: bool

record status_row =
  s_id :: nat
  s_name :: string
  s_isFinalStatus :: bool

record latest_status_row =
  ticketId :: nat
  statusId :: nat
  status_name :: string
  isFinalStatus :: bool
  status_created_at :: int

definition latest_status_from ::
  "ticket_status_row list \<Rightarrow> status_row list \<Rightarrow> latest_status_row list" where
  "latest_status_from ticket_status status =
     concat (map (\<lambda>ts.
         map (\<lambda>s. \<lparr>ticketId = ts_ticketId ts, statusId = ts_statusId ts, status_name = s_name s,
                    isFinalStatus = s_isFinalStatus s, status_created_at = ts_createdAt ts\<rparr>)
           (filter (\<lambda>s. ts_statusId ts = s_id s) status))
       (filter (\<lambda>ts. \<not> ts_deleted ts) ticket_status))"

fun distinct_on_ticketId :: "latest_status_row list \<Rightarrow> latest_status_row list" where
  "distinct_on_ticketId (r1 # r2 # rs) =
     (if ticketId r1 = ticketId r2 then distinct_on_ticketId (r1 # rs)
      else r1 # distinct_on_ticketId (r2 # rs))"
| "distinct_on_ticketId rs = rs"

definition latest_status ::
  "ticket_status_row list \<Rightarrow> status_row list \<Rightarrow> latest_status_row list" where
  "latest_status ticket_status status =
     distinct_on_ticketId
       (sort_key (\<lambda>r. (ticketId r, - status_created_at r))
          (latest_status_from ticket_status status))"

definition current_status ::
  "ticket_status_row list \<Rightarrow> status_row list \<Rightarrow> nat \<Rightarrow> latest_status_row list" where
  "current_status ticket_status status t =
     filter (\<lambda>ls. ticketId ls = t) (latest_status ticket_status status)"

text \<open>
  The status history of ticket 7, with timestamps 100, 200 and 300, next to a row of
  ticket 5; the same rows presented in another order; the statuses.
\<close>

definition demo_history :: "ticket_status_row list" where
  "demo_history =
     [\<lparr>ts_ticketId = 7, ts_statusId = 1, ts_createdAt = 100, ts_deleted = False\<rparr>,
      \<lparr>ts_ticketId = 7, ts_statusId = 2, ts_createdAt = 200, ts_deleted = False\<rparr>,
      \<lparr>ts_ticketId = 7, ts_statusId = 3, ts_createdAt = 300, ts_deleted = False\<rparr>,
      \<lparr>ts_ticketId = 5, ts_statusId = 3, ts_createdAt = 900, ts_deleted = False\<rparr>]"

definition demo_history_shuffled :: "ticket_status_row list" where
  "demo_history_shuffled =
     [\<lparr>ts_ticketId = 7, ts_statusId = 2, ts_createdAt = 200, ts_deleted = False\<rparr>,
      \<lparr>ts_ticketId = 7, ts_statusId = 3, ts_createdAt = 300, ts_deleted = False\<rparr>,
      \<lparr>ts_ticketId = 5, ts_statusId = 3, ts_createdAt = 900, ts_deleted = False\<rparr>,
      \<lparr>ts_ticketId = 7, ts_statusId = 1, ts_createdAt = 100, ts_deleted = False\<rparr>]"

definition demo_status :: "status_row list" where
  "demo_status =
     [\<lparr>s_id = 1, s_name = ''Open'', s_isFinalStatus = False\<rparr>,
      \<lparr>s_id = 2, s_name = ''Doing'', s_isFinalStatus = False\<rparr>,
      \<lparr>s_id = 3, s_name = ''Done'', s_isFinalStatus = True\<rparr>]"

text \<open>
  The values built without an ndarray or a Series: scalars, missing-value markers,
  numpy scalars, UUIDs, timestamps, binary data, and dicts and lists of such values.
\<close>

fun no_arrays :: "pyval \<Rightarrow> bool" where
  "no_arrays (VArray k xs) = False"
| "no_arrays (VSeries k xs) = False"
| "no_arrays (VList xs) = list_all no_arrays xs"
| "no_arrays (VDict kvs) = list_all (\<lambda>kv. no_arrays (snd kv)) kvs"
| "no_arrays v = True"

section \<open>Properties of the Sync Orchestrator\<close>

lemma attempted_orch_info [simp]: "attempted (orch_info m st) = attempted st"
  by (simp add: orch_info_def)

lemma attempted_orch_error [simp]: "attempted (orch_error m st) = attempted st"
  by (simp add: orch_error_def)

lemma run_passes_no_failure:
  "\<forall>k \<in> set ks. outcome k = None \<Longrightarrow>
   run_passes outcome ks st = (None, st\<lparr>attempted := attempted st @ ks\<rparr>)"
  by (induction ks arbitrary: st) (simp_all add: run_pass_def)

text \<open>When no pass raises, the five kinds are attempted in the fixed order.\<close>

lemma sync_all_tables_no_failure:
  "attempted (sync_all_tables (\<lambda>k. None) orch_init)
     = [DataSources, Users, Modules, Statuses, Labels]"
  by (simp add: sync_all_tables_def run_pass_def orch_init_def orch_info_def)

text \<open>
  The table-by-table orchestrator of \<^verbatim>\<open>data_lake_sync.py\<close> attempts every table,
  whatever the outcome of the earlier ones.
\<close>

lemma data_lake_sync_all_tables_attempts_all:
  "attempted (data_lake_sync_all_tables outcome ts st) = attempted st @ ts"
  by (induction ts arbitrary: st) (simp_all add: run_pass_def split: option.splits)

text \<open>
  Claim C2. The claim: when the pass of one entity kind raises, the failure is caught
  and logged and the orchestrator still attempts every remaining kind. In
  \<^verbatim>\<open>src/data_sync.py\<close> the five calls share one \<^verbatim>\<open>try\<close> block: when the data-source
  pass raises, the exception is logged once and the passes for users, modules,
  statuses and labels are never started.
\<close>

theorem sync_all_tables_stops_at_first_failure:
  "attempted (sync_all_tables
       (\<lambda>k. if k = DataSources then Some (Exn ''index store unreachable'') else None)
       orch_init) = [DataSources]"
  by (simp add: sync_all_tables_def run_pass_def orch_init_def orch_info_def)

section \<open>Properties of the Value Sanitizer\<close>

declare sanitize_value.simps [simp del] sanitize_document.simps [simp del]
declare utils_sanitize_value.simps [simp del] utils_sanitize_document.simps [simp del]

lemma map_fst_dict_set:
  "map fst (dict_set a k v) = (if k \<in> set (map fst a) then map fst a else map fst a @ [k])"
  by (induction a) (auto split: if_splits)

lemma distinct_dict_set: "distinct (map fst a) \<Longrightarrow> distinct (map fst (dict_set a k v))"
  by (simp add: map_fst_dict_set)

lemma dict_set_new: "k \<notin> set (map fst a) \<Longrightarrow> dict_set a k v = a @ [(k, v)]"
  by (induction a) auto

lemma set_dict_set: "set (dict_set a k v) \<subseteq> insert (k, v) (set a)"
  by (induction a) (auto split: if_splits)

lemma sanitize_fields_distinct:
  "distinct (map fst kvs) \<Longrightarrow> set (map fst kvs) \<inter> set (map fst acc) = {} \<Longrightarrow>
   sanitize_fields kvs acc = acc @ map (\<lambda>kv. (fst kv, except_none (sanitize_value (snd kv)))) kvs"
proof (induction kvs arbitrary: acc)
  case Nil
  then show ?case by simp
next
  case (Cons kv kvs)
  obtain k v where kv: "kv = (k, v)" by (cases kv)
  from Cons.prems have new: "k \<notin> set (map fst acc)" and d: "distinct (map fst kvs)"
    and disj: "set (map fst kvs) \<inter> set (map fst (acc @ [(k, except_none (sanitize_value v))])) = {}"
    by (auto simp: kv)
  show ?case
    using Cons.IH [OF d disj] by (simp add: kv dict_set_new [OF new])
qed

lemma sanitize_fields_keys_distinct:
  "distinct (map fst acc) \<Longrightarrow> distinct (map fst (sanitize_fields kvs acc))"
  by (induction kvs arbitrary: acc) (auto simp: distinct_dict_set)

lemma sanitize_fields_values:
  "(k, w) \<in> set (sanitize_fields kvs acc) \<Longrightarrow>
   (k, w) \<in> set acc \<or> (\<exists>v. (k, v) \<in> set kvs \<and> w = except_none (sanitize_value v))"
proof (induction kvs arbitrary: acc)
  case Nil
  then show ?case by simp
next
  case (Cons kv kvs)
  obtain k' v' where kv: "kv = (k', v')" by (cases kv)
  from Cons.prems have "(k, w) \<in> set (sanitize_fields kvs (dict_set acc k' (except_none (sanitize_value v'))))"
    by (simp add: kv)
  from Cons.IH [OF this] show ?case
    using set_dict_set [of acc k' "except_none (sanitize_value v')"] by (auto simp: kv)
qed

lemma sanitize_document_dict: "sanitize_document (VDict kvs) = Inr (VDict (sanitize_fields kvs []))"
  by (simp add: sanitize_document.simps)

lemma sanitize_document_other: "\<not> is_dict x \<Longrightarrow> sanitize_document x = Inr x"
  by (cases x) (simp_all add: sanitize_document.simps)

lemma sanitize_document_Inr: "sanitize_document x = Inr (projr (sanitize_document x))"
  by (cases x) (simp_all add: sanitize_document.simps)

lemma sanitize_elems_map: "sanitize_elems xs = Inr (map (\<lambda>x. projr (sanitize_document x)) xs)"
proof (induction xs)
  case Nil
  then show ?case by simp
next
  case (Cons x xs)
  obtain y where y: "sanitize_document x = Inr y"
    using sanitize_document_Inr [of x] by blast
  show ?case using Cons.IH by (simp add: y)
qed

lemma sanitize_value_list: "sanitize_value (VList xs) = Inr (VList (map (\<lambda>x. projr (sanitize_document x)) xs))"
  by (simp add: sanitize_value.simps sanitize_elems_map)

lemma sanitize_value_dict: "sanitize_value (VDict kvs) = sanitize_document (VDict kvs)"
  by (simp add: sanitize_value.simps)

lemma sanitize_value_scalar_idem:
  "\<not> is_dict v \<Longrightarrow> \<not> is_list v \<Longrightarrow> \<not> is_ndarray v \<Longrightarrow> \<not> is_series v \<Longrightarrow>
   except_none (sanitize_value (except_none (sanitize_value v))) = except_none (sanitize_value v)"
proof (cases v)
  case (VFloat f)
  then show ?thesis by (cases f) (simp_all add: sanitize_value.simps)
next
  case (VNpFloat f)
  then show ?thesis by (cases f) (simp_all add: sanitize_value.simps)
qed (simp_all add: sanitize_value.simps)

lemma sanitize_fields_fixed:
  assumes d: "distinct (map fst res)"
    and fp: "\<And>k w. (k, w) \<in> set res \<Longrightarrow> except_none (sanitize_value w) = w"
  shows "sanitize_fields res [] = res"
proof -
  have "sanitize_fields res [] = map (\<lambda>kv. (fst kv, except_none (sanitize_value (snd kv)))) res"
    using sanitize_fields_distinct [OF d, of "[]"] by simp
  also have "\<dots> = map (\<lambda>kv. kv) res"
  proof (rule map_cong [OF refl])
    fix kv assume "kv \<in> set res"
    then have "(fst kv, snd kv) \<in> set res" by simp
    from fp [OF this] show "(fst kv, except_none (sanitize_value (snd kv))) = kv"
      by (simp add: prod_eq_iff)
  qed
  finally show ?thesis by simp
qed

lemma sanitize_idem_aux:
  "no_arrays v \<Longrightarrow>
   except_none (sanitize_value (except_none (sanitize_value v))) = except_none (sanitize_value v)
   \<and> sanitize_document (projr (sanitize_document v)) = sanitize_document v"
proof (induction v)
  case (VList xs)
  have D: "\<And>x. x \<in> set xs \<Longrightarrow>
      projr (sanitize_document (projr (sanitize_document x))) = projr (sanitize_document x)"
  proof -
    fix x assume x: "x \<in> set xs"
    with VList.prems have "no_arrays x" by (simp add: list_all_iff)
    from VList.IH [OF x this] show
      "projr (sanitize_document (projr (sanitize_document x))) = projr (sanitize_document x)"
      by simp
  qed
  have "map (\<lambda>x. projr (sanitize_document x)) (map (\<lambda>x. projr (sanitize_document x)) xs)
        = map (\<lambda>x. projr (sanitize_document x)) xs"
    using D by (simp add: map_idI comp_def)
  then show ?case
    by (simp add: sanitize_value_list sanitize_document_other)
next
  case (VDict kvs)
  let ?res = "sanitize_fields kvs []"
  have dist: "distinct (map fst ?res)"
    by (rule sanitize_fields_keys_distinct) simp
  have fixed: "\<And>k w. (k, w) \<in> set ?res \<Longrightarrow> except_none (sanitize_value w) = w"
  proof -
    fix k w assume "(k, w) \<in> set ?res"
    from sanitize_fields_values [OF this] obtain v where
      v: "(k, v) \<in> set kvs" and w: "w = except_none (sanitize_value v)"
      by auto
    from v VDict.prems have na: "no_arrays v" by (auto simp: list_all_iff)
    from v have "v \<in> Basic_BNFs.snds (k, v)" by simp
    from VDict.IH [OF v this na] show "except_none (sanitize_value w) = w"
      by (simp add: w)
  qed
  have "sanitize_fields ?res [] = ?res"
    by (rule sanitize_fields_fixed [OF dist fixed])
  then show ?case
    by (simp add: sanitize_value_dict sanitize_document_dict)
qed (simp_all add: sanitize_value_scalar_idem sanitize_document_other)

text \<open>
  Claim C4. The sanitizer is idempotent on every value built from missing-value
  markers, numpy numerics, UUIDs, timestamps, binary data, plain scalars, and dicts and
  lists of these: the sanitizer returns a value \<open>y\<close>, and sanitizing \<open>y\<close> again
  returns \<open>y\<close>. Equality is equality of the value trees.
\<close>

theorem sanitize_document_idempotent:
  "no_arrays x \<Longrightarrow> \<exists>y. sanitize_document x = Inr y \<and> sanitize_document y = Inr y"
proof -
  assume na: "no_arrays x"
  obtain y where y: "sanitize_document x = Inr y"
    using sanitize_document_Inr [of x] by blast
  from sanitize_idem_aux [OF na] have "sanitize_document y = Inr y" by (simp add: y)
  with y show ?thesis by blast
qed

theorem sanitize_document_idempotent_witness:
  "no_arrays (VDict [(''n'', VNpInt 3), (''t'', VNaT), (''f'', VNpFloat NaN),
       (''u'', VUUID ''0f8fad5b-d9cb-469f-a165-70867728950e''),
       (''ts'', VTimestamp ''2024-01-02T03:04:05''), (''b'', VBytes ''ab''),
       (''d'', VDict [(''g'', VNpBool True)]), (''l'', VList [VDict [(''h'', VNA)], VNone])])
   \<and> (\<exists>y. sanitize_document (VDict [(''n'', VNpInt 3), (''t'', VNaT), (''f'', VNpFloat NaN),
       (''u'', VUUID ''0f8fad5b-d9cb-469f-a165-70867728950e''),
       (''ts'', VTimestamp ''2024-01-02T03:04:05''), (''b'', VBytes ''ab''),
       (''d'', VDict [(''g'', VNpBool True)]), (''l'', VList [VDict [(''h'', VNA)], VNone])]) = Inr y
      \<and> sanitize_document y = Inr y)"
  using sanitize_document_idempotent [of "VDict [(''n'', VNpInt 3), (''t'', VNaT),
       (''f'', VNpFloat NaN), (''u'', VUUID ''0f8fad5b-d9cb-469f-a165-70867728950e''),
       (''ts'', VTimestamp ''2024-01-02T03:04:05''), (''b'', VBytes ''ab''),
       (''d'', VDict [(''g'', VNpBool True)]), (''l'', VList [VDict [(''h'', VNA)], VNone])]"]
  by simp



lemma utils_sanitize_fields_distinct:
  "distinct (map fst kvs) \<Longrightarrow> set (map fst kvs) \<inter> set (map fst acc) = {} \<Longrightarrow>
   utils_sanitize_fields kvs acc
     = acc @ map (\<lambda>kv. (fst kv, except_none (utils_sanitize_value (snd kv)))) kvs"
proof (induction kvs arbitrary: acc)
  case Nil
  then show ?case by simp
next
  case (Cons kv kvs)
  obtain k v where kv: "kv = (k, v)" by (cases kv)
  from Cons.prems have new: "k \<notin> set (map fst acc)" and d: "distinct (map fst kvs)"
    and disj: "set (map fst kvs)
        \<inter> set (map fst (acc @ [(k, except_none (utils_sanitize_value v))])) = {}"
    by (auto simp: kv)
  show ?case
    using Cons.IH [OF d disj] by (simp add: kv dict_set_new [OF new])
qed

lemma utils_sanitize_document_Inr:
  "utils_sanitize_document x = Inr (projr (utils_sanitize_document x))"
  by (cases x) (simp_all add: utils_sanitize_document.simps)

text \<open>
  Claim C5. The sanitizer is total, in both copies: it returns for every input. For a
  dict, the result holds under each key the sanitized value of that field, or
  \<^verbatim>\<open>None\<close> when sanitizing that field raised; what happens to one field changes no
  other field.
\<close>

theorem sanitize_document_total:
  "(\<exists>r. sanitize_document x = Inr r) \<and> (\<exists>r. utils_sanitize_document x = Inr r)
   \<and> (distinct (map fst kvs) \<longrightarrow>
        sanitize_document (VDict kvs)
          = Inr (VDict (map (\<lambda>kv. (fst kv, except_none (sanitize_value (snd kv)))) kvs))
        \<and> utils_sanitize_document (VDict kvs)
          = Inr (VDict (map (\<lambda>kv. (fst kv, except_none (utils_sanitize_value (snd kv)))) kvs)))"
proof (intro conjI impI)
  show "\<exists>r. sanitize_document x = Inr r"
    using sanitize_document_Inr [of x] by blast
  show "\<exists>r. utils_sanitize_document x = Inr r"
    using utils_sanitize_document_Inr [of x] by blast
next
  assume d: "distinct (map fst kvs)"
  show "sanitize_document (VDict kvs)
          = Inr (VDict (map (\<lambda>kv. (fst kv, except_none (sanitize_value (snd kv)))) kvs))"
    using sanitize_fields_distinct [OF d, of "[]"] by (simp add: sanitize_document.simps)
next
  assume d: "distinct (map fst kvs)"
  show "utils_sanitize_document (VDict kvs)
          = Inr (VDict (map (\<lambda>kv. (fst kv, except_none (utils_sanitize_value (snd kv)))) kvs))"
    using utils_sanitize_fields_distinct [OF d, of "[]"]
    by (simp add: utils_sanitize_document.simps)
qed

theorem sanitize_document_total_witness:
  "distinct (map fst [(''bad'', VArray KObject [VList [VInt 1, VInt 2]]), (''ok'', VNpInt 3),
       (''tags'', VList [VInt 1, VInt 2])])
   \<and> sanitize_value (VArray KObject [VList [VInt 1, VInt 2]]) = Inl ambiguous
   \<and> utils_sanitize_value (VList [VInt 1, VInt 2]) = Inl ambiguous
   \<and> sanitize_document (VDict [(''bad'', VArray KObject [VList [VInt 1, VInt 2]]),
         (''ok'', VNpInt 3), (''tags'', VList [VInt 1, VInt 2])])
       = Inr (VDict [(''bad'', VNone), (''ok'', VInt 3), (''tags'', VList [VInt 1, VInt 2])])
   \<and> utils_sanitize_document (VDict [(''bad'', VArray KObject [VList [VInt 1, VInt 2]]),
         (''ok'', VNpInt 3), (''tags'', VList [VInt 1, VInt 2])])
       = Inr (VDict [(''bad'', VArray KObject [VList [VInt 1, VInt 2]]), (''ok'', VInt 3),
           (''tags'', VNone)])"
  using sanitize_document_total [of "VNone"
      "[(''bad'', VArray KObject [VList [VInt 1, VInt 2]]), (''ok'', VNpInt 3),
        (''tags'', VList [VInt 1, VInt 2])]"]
  by (simp add: sanitize_value.simps utils_sanitize_value.simps sanitize_array_def
      sanitize_document.simps utils_sanitize_document.simps)

text \<open>
  Claim C10. The claim: the two copies of the sanitizer return the same result for
  every input. For a field that holds a list of two items the copy of
  \<^verbatim>\<open>src/utils.py\<close> stores \<^verbatim>\<open>None\<close>, because the truth value of \<^verbatim>\<open>pd.isna(v)\<close>
  raises, and the copy of \<^verbatim>\<open>src/document_utils.py\<close> stores the list.
\<close>

theorem sanitize_copies_differ_on_list:
  "utils_sanitize_document (VDict [(''labels'', VList [VStr ''bug'', VStr ''urgent''])])
     = Inr (VDict [(''labels'', VNone)])
   \<and> sanitize_document (VDict [(''labels'', VList [VStr ''bug'', VStr ''urgent''])])
     = Inr (VDict [(''labels'', VList [VStr ''bug'', VStr ''urgent''])])"
  by (simp add: sanitize_document.simps sanitize_value.simps
      utils_sanitize_document.simps utils_sanitize_value.simps)

section \<open>Properties of the batch sync passes\<close>

lemma dict_get_map_of: "dict_get kvs k = map_of kvs k"
  by (induction kvs) auto

lemma dict_get_dict_set: "dict_get (dict_set a k v) k' = (if k' = k then Some v else dict_get a k')"
  by (induction a) auto

lemma sanitize_value_str: "sanitize_value (VStr s) = Inr (VStr s)"
  by (simp add: sanitize_value.simps)

lemma sanitize_value_empty_list: "sanitize_value (VList []) = Inr (VList [])"
  by (simp add: sanitize_value.simps)

lemma dict_get_sanitize_fields:
  "distinct (map fst kvs) \<Longrightarrow> dict_get kvs k = Some v \<Longrightarrow>
   dict_get (sanitize_fields kvs []) k = Some (except_none (sanitize_value v))"
proof -
  assume d: "distinct (map fst kvs)" and g: "dict_get kvs k = Some v"
  have "sanitize_fields kvs [] = map (\<lambda>kv. (fst kv, except_none (sanitize_value (snd kv)))) kvs"
    using sanitize_fields_distinct [OF d, of "[]"] by simp
  moreover have "map_of (map (\<lambda>kv. (fst kv, except_none (sanitize_value (snd kv)))) kvs) k
      = map_option (\<lambda>v. except_none (sanitize_value v)) (map_of kvs k)"
    by (induction kvs) auto
  ultimately show ?thesis using g by (simp add: dict_get_map_of)
qed

lemma roundtrip_items_get:
  "json_default_roundtrip_items w kvs = Inr r \<Longrightarrow> dict_get kvs k = Some v \<Longrightarrow>
   \<exists>y. json_default_roundtrip w v = Inr y \<and> dict_get r k = Some y"
proof (induction kvs arbitrary: r)
  case Nil
  then show ?case by simp
next
  case (Cons kv kvs)
  obtain k0 v0 where kv: "kv = (k0, v0)" by (cases kv)
  from Cons.prems(1) obtain y0 r0 where y0: "json_default_roundtrip w v0 = Inr y0"
    and r0: "json_default_roundtrip_items w kvs = Inr r0" and r: "r = (k0, y0) # r0"
    by (auto simp: kv split: sum.splits)
  show ?case
  proof (cases "k0 = k")
    case True
    with Cons.prems(2) have "v = v0" by (simp add: kv)
    with True y0 r show ?thesis by simp
  next
    case False
    with Cons.prems(2) have "dict_get kvs k = Some v" by (simp add: kv)
    from Cons.IH [OF r0 this] False r show ?thesis by simp
  qed
qed

lemma make_action_field:
  assumes m: "make_action w index_name document_id doc = Some a"
    and d: "distinct (map fst doc)"
    and g: "dict_get doc k = Some v"
    and fixed: "sanitize_value v = Inr v" "json_default_roundtrip w v = Inr v"
  shows "a_id a = document_id \<and> a_index a = index_name \<and> doc_field (a_source a) k = Some v"
proof -
  let ?s = "VDict (sanitize_fields doc [])"
  have s: "sanitize_document (VDict doc) = Inr ?s" by (simp add: sanitize_document.simps)
  have gs: "dict_get (sanitize_fields doc []) k = Some v"
    using dict_get_sanitize_fields [OF d g] fixed(1) by simp
  show ?thesis
  proof (cases "json_dumps_ok ?s")
    case True
    with m s have "a = \<lparr>a_index = index_name, a_id = document_id, a_source = ?s\<rparr>"
      by (simp add: make_action_def)
    with gs show ?thesis by simp
  next
    case False
    with m s obtain reloaded where rl: "json_default_roundtrip w ?s = Inr reloaded"
      and a: "a = \<lparr>a_index = index_name, a_id = document_id, a_source = reloaded\<rparr>"
      by (auto simp: make_action_def split: sum.splits)
    from rl obtain r where r: "json_default_roundtrip_items w (sanitize_fields doc []) = Inr r"
      and rr: "reloaded = VDict r"
      by (auto split: sum.splits)
    from roundtrip_items_get [OF r gs] fixed(2) have "dict_get r k = Some v" by simp
    with a rr show ?thesis by simp
  qed
qed

lemma row_loop_eq:
  "row_loop m rows acts st =
     (acts @ List.map_filter m rows,
      st\<lparr>failed_docs := failed_docs st + length (filter (\<lambda>r. m r = None) rows)\<rparr>)"
proof (induction rows arbitrary: acts st)
  case Nil
  then show ?case by (simp add: List.map_filter_simps)
next
  case (Cons row rows)
  show ?case
  proof (cases "m row")
    case None
    then show ?thesis by (simp add: Cons.IH List.map_filter_simps)
  next
    case (Some a)
    then show ?thesis by (simp add: Cons.IH List.map_filter_simps)
  qed
qed




declare batch_loop.simps [simp del]

lemma sync_batch_calls:
  "es_calls (sync_batch w m df bs s st)
     = es_calls st @
       (let acts = List.map_filter m (take (min (s + bs) (length df) - s) (drop s df))
        in if acts = [] then [] else [EsBulk acts (min (s + bs) (length df) = length df)])"
  by (simp add: sync_batch_def row_loop_eq Let_def split: prod.splits)

lemma sync_batch_clock: "clock_reads (sync_batch w m df bs s st) = clock_reads st"
  by (simp add: sync_batch_def row_loop_eq Let_def split: prod.splits)

lemma map_filter_mem: "a \<in> set (List.map_filter m rows) \<Longrightarrow> \<exists>row \<in> set rows. m row = Some a"
  by (auto simp: List.map_filter_def)

lemma batch_loop_calls:
  "\<exists>new. es_calls (batch_loop w m df bs s st) = es_calls st @ new
      \<and> (\<forall>acts r. EsBulk acts r \<in> set new \<longrightarrow> (\<forall>a \<in> set acts. \<exists>row \<in> set df. m row = Some a))"
proof (induction w m df bs s st rule: batch_loop.induct)
  case (1 w m df bs s st)
  show ?case
  proof (cases "s < length df \<and> 0 < bs")
    case False
    then have "batch_loop w m df bs s st = st" by (subst batch_loop.simps) auto
    then show ?thesis by simp
  next
    case True
    let ?st1 = "sync_batch w m df bs s st"
    let ?acts = "List.map_filter m (take (min (s + bs) (length df) - s) (drop s df))"
    from "1.IH" [OF True] obtain new where
      n1: "es_calls (batch_loop w m df bs (s + bs) ?st1) = es_calls ?st1 @ new"
      and n2: "\<forall>acts r. EsBulk acts r \<in> set new \<longrightarrow> (\<forall>a \<in> set acts. \<exists>row \<in> set df. m row = Some a)"
      by blast
    have unfold: "batch_loop w m df bs s st = batch_loop w m df bs (s + bs) ?st1"
      using True by (subst batch_loop.simps) simp
    have mem: "\<forall>a \<in> set ?acts. \<exists>row \<in> set df. m row = Some a"
    proof
      fix a assume "a \<in> set ?acts"
      from map_filter_mem [OF this] obtain row where
        "row \<in> set (take (min (s + bs) (length df) - s) (drop s df))" and "m row = Some a"
        by blast
      then show "\<exists>row \<in> set df. m row = Some a"
        by (meson in_set_dropD in_set_takeD)
    qed
    let ?c = "if ?acts = [] then [] else [EsBulk ?acts (min (s + bs) (length df) = length df)]"
    have "es_calls (batch_loop w m df bs s st) = es_calls st @ (?c @ new)"
      using n1 by (simp add: unfold sync_batch_calls Let_def)
    moreover have "\<forall>acts r. EsBulk acts r \<in> set (?c @ new)
        \<longrightarrow> (\<forall>a \<in> set acts. \<exists>row \<in> set df. m row = Some a)"
      using n2 mem by (auto split: if_splits)
    ultimately show ?thesis by blast
  qed
qed

lemma batch_loop_clock: "clock_reads (batch_loop w m df bs s st) = clock_reads st"
proof (induction w m df bs s st rule: batch_loop.induct)
  case (1 w m df bs s st)
  show ?case
  proof (cases "s < length df \<and> 0 < bs")
    case False
    then have "batch_loop w m df bs s st = st" by (subst batch_loop.simps) auto
    then show ?thesis by simp
  next
    case True
    have "batch_loop w m df bs s st = batch_loop w m df bs (s + bs) (sync_batch w m df bs s st)"
      using True by (subst batch_loop.simps) simp
    with "1.IH" [OF True] show ?thesis by (simp add: sync_batch_clock)
  qed
qed

lemma data_source_doc_fields:
  assumes "data_source_doc w ts row = Inr (did, doc)"
  shows "distinct (map fst doc)"
    and "dict_get doc ''indexed_at'' = Some (VStr ts)"
    and "dict_get doc ''document_id'' = Some (VStr did)"
    and "\<exists>id0 id_text. row_getitem row ''id'' = Inr id0
           \<and> py_str w (uuid_to_str id0) = Inr id_text \<and> did = id_text @ ''_'' @ ts"
  using assms
  by (auto simp: data_source_doc_def bind_exn_def Let_def split: sum.splits)

lemma copy_columns_distinct:
  "copy_columns cols row doc = Inr d \<Longrightarrow> distinct (map fst doc) \<Longrightarrow> distinct (map fst d)"
proof (induction cols arbitrary: doc)
  case Nil
  then show ?case by simp
next
  case (Cons col cols)
  from Cons.prems(1) obtain c where "copy_columns cols row (dict_set doc col c) = Inr d"
    by (auto simp: bind_exn_def split: sum.splits)
  from Cons.IH [OF this distinct_dict_set [OF Cons.prems(2)]] show ?case .
qed

lemma parse_ticket_data_distinct:
  "parse_ticket_data w doc = Inr d \<Longrightarrow> distinct (map fst doc) \<Longrightarrow> distinct (map fst d)"
  by (auto simp: parse_ticket_data_def bind_exn_def distinct_dict_set
      split: option.splits pyval.splits sum.splits)

lemma ticket_doc_fields:
  assumes "ticket_doc w lbt cols ts row = Inr (did, doc)"
  shows "distinct (map fst doc)"
    and "dict_get doc ''indexed_at'' = Some (VStr ts)"
    and "dict_get doc ''document_id'' = Some (VStr did)"
    and "\<exists>id0 id_text. row_getitem row ''ticket_id'' = Inr id0
           \<and> py_str w (uuid_to_str id0) = Inr id_text \<and> did = id_text @ ''_'' @ ts"
    and "\<exists>id0 labels. row_getitem row ''ticket_id'' = Inr id0
           \<and> labels_get lbt (uuid_to_str id0) = Inr labels
           \<and> dict_get doc ''labels'' = Some (VList labels)"
proof -
  from assms obtain t0 doc1 doc2 labels id_text where
    t0: "row_getitem row ''ticket_id'' = Inr t0"
    and c: "copy_columns cols row [] = Inr doc1"
    and p: "parse_ticket_data w doc1 = Inr doc2"
    and l: "labels_get lbt (uuid_to_str t0) = Inr labels"
    and s: "py_str w (uuid_to_str t0) = Inr id_text"
    and did: "did = id_text @ ''_'' @ ts"
    and doc: "doc = dict_set (dict_set (dict_set doc2 ''labels'' (VList labels))
                 ''indexed_at'' (VStr ts)) ''document_id'' (VStr did)"
    by (auto simp: ticket_doc_def bind_exn_def Let_def split: sum.splits)
  have "distinct (map fst doc1)" using copy_columns_distinct [OF c] by simp
  then have "distinct (map fst doc2)" by (rule parse_ticket_data_distinct [OF p])
  then show "distinct (map fst doc)" by (simp add: doc distinct_dict_set)
  show "dict_get doc ''indexed_at'' = Some (VStr ts)" by (simp add: doc dict_get_dict_set)
  show "dict_get doc ''document_id'' = Some (VStr did)" by (simp add: doc dict_get_dict_set)
  show "\<exists>id0 id_text. row_getitem row ''ticket_id'' = Inr id0
           \<and> py_str w (uuid_to_str id0) = Inr id_text \<and> did = id_text @ ''_'' @ ts"
    using t0 s did by blast
  show "\<exists>id0 labels. row_getitem row ''ticket_id'' = Inr id0
           \<and> labels_get lbt (uuid_to_str id0) = Inr labels
           \<and> dict_get doc ''labels'' = Some (VList labels)"
    using t0 l by (auto simp: doc dict_get_dict_set)
qed

lemma map_fst_label_append:
  "map fst (label_append m t l) = (if t \<in> set (map fst m) then map fst m else map fst m @ [t])"
  by (induction m) (auto split: if_splits)

lemma label_append_keys: "fst ` set (label_append m t l) = insert t (fst ` set m)"
proof -
  have "set (map fst (label_append m t l)) = insert t (set (map fst m))"
    by (auto simp: map_fst_label_append)
  then show ?thesis by simp
qed

lemma process_ticket_labels_loop_keys:
  "process_ticket_labels_loop rows acc = Inr m \<Longrightarrow> k \<in> fst ` set m \<Longrightarrow>
   k \<in> fst ` set acc
   \<or> (\<exists>lrow \<in> set rows. map_sum id uuid_to_str (row_getitem lrow ''ticketId'') = Inr k)"
proof (induction rows arbitrary: acc)
  case Nil
  then show ?case by simp
next
  case (Cons row rows)
  from Cons.prems(1) obtain t0 label where t0: "row_getitem row ''ticketId'' = Inr t0"
    and rest: "process_ticket_labels_loop rows (label_append acc (uuid_to_str t0) label) = Inr m"
    by (auto simp: bind_exn_def Let_def split: sum.splits if_splits)
  from Cons.IH [OF rest Cons.prems(2)] show ?case
    using t0 by (auto simp: label_append_keys)
qed

lemma mapper_identity:
  assumes mapper: "(id_column = ''id'' \<and> mapper = data_source_action w index_name)
      \<or> (id_column = ''ticket_id'' \<and> mapper = ticket_action w labels_by_ticket columns index_name)"
    and a: "mapper ts row = Some a"
  shows "(\<exists>id0 id_text. row_getitem row id_column = Inr id0
            \<and> py_str w (uuid_to_str id0) = Inr id_text \<and> a_id a = id_text @ ''_'' @ ts)
     \<and> doc_field (a_source a) ''indexed_at'' = Some (VStr ts)
     \<and> doc_field (a_source a) ''document_id'' = Some (VStr (a_id a))"
proof -
  have "\<exists>did doc. make_action w index_name did doc = Some a \<and> distinct (map fst doc)
      \<and> dict_get doc ''indexed_at'' = Some (VStr ts)
      \<and> dict_get doc ''document_id'' = Some (VStr did)
      \<and> (\<exists>id0 id_text. row_getitem row id_column = Inr id0
            \<and> py_str w (uuid_to_str id0) = Inr id_text \<and> did = id_text @ ''_'' @ ts)"
  proof (cases "id_column = ''id'' \<and> mapper = data_source_action w index_name")
    case True
    with a obtain did doc where d: "data_source_doc w ts row = Inr (did, doc)"
      and m: "make_action w index_name did doc = Some a"
      by (auto simp: data_source_action_def split: sum.splits)
    from data_source_doc_fields [OF d] m True show ?thesis by blast
  next
    case False
    with mapper have t: "id_column = ''ticket_id''"
      and mp: "mapper = ticket_action w labels_by_ticket columns index_name" by auto
    with a obtain did doc where d: "ticket_doc w labels_by_ticket columns ts row = Inr (did, doc)"
      and m: "make_action w index_name did doc = Some a"
      by (auto simp: ticket_action_def split: sum.splits)
    from ticket_doc_fields(1-4) [OF d] m t show ?thesis by blast
  qed
  then obtain did doc where m: "make_action w index_name did doc = Some a"
    and d: "distinct (map fst doc)"
    and i: "dict_get doc ''indexed_at'' = Some (VStr ts)"
    and di: "dict_get doc ''document_id'' = Some (VStr did)"
    and n: "\<exists>id0 id_text. row_getitem row id_column = Inr id0
            \<and> py_str w (uuid_to_str id0) = Inr id_text \<and> did = id_text @ ''_'' @ ts"
    by blast
  from make_action_field [OF m d i] have "a_id a = did"
    and "doc_field (a_source a) ''indexed_at'' = Some (VStr ts)"
    by (simp_all add: sanitize_value_str)
  moreover from make_action_field [OF m d di]
  have "doc_field (a_source a) ''document_id'' = Some (VStr did)"
    by (simp add: sanitize_value_str)
  ultimately show ?thesis using n by simp
qed

text \<open>
  Claim C7. In a historical-append pass the timestamp is read once, before the loop over
  the batches: the clock is read exactly once during the loops. Every document of
  every bulk request of the pass comes from a row of the rowset, is upserted under the
  id made of the text of that row's natural id, an underscore and the timestamp, and
  carries the timestamp in \<^verbatim>\<open>indexed_at\<close> and that id in \<^verbatim>\<open>document_id\<close>. This holds
  for the data-source pass (natural id in column \<^verbatim>\<open>id\<close>) and for the ticket pass
  (natural id in column \<^verbatim>\<open>ticket_id\<close>).
\<close>

theorem pass_documents_carry_timestamp_identity:
  assumes run: "sync_rows w mapper cfg df st = Inr st'"
    and mapper: "(id_column = ''id'' \<and> mapper = data_source_action w index_name)
      \<or> (id_column = ''ticket_id'' \<and> mapper = ticket_action w labels_by_ticket columns index_name)"
  shows "clock_reads st' = clock_reads st + 1
     \<and> (\<exists>new. es_calls st' = es_calls st @ new
          \<and> (\<forall>acts refresh. EsBulk acts refresh \<in> set new \<longrightarrow> (\<forall>a \<in> set acts.
               (\<exists>row \<in> set df. \<exists>id0 id_text. row_getitem row id_column = Inr id0
                   \<and> py_str w (uuid_to_str id0) = Inr id_text
                   \<and> a_id a = id_text @ ''_'' @ w_now w (clock_reads st))
               \<and> doc_field (a_source a) ''indexed_at'' = Some (VStr (w_now w (clock_reads st)))
               \<and> doc_field (a_source a) ''document_id'' = Some (VStr (a_id a)))))"
proof -
  let ?ts = "w_now w (clock_reads st)"
  let ?st1 = "st\<lparr>clock_reads := clock_reads st + 1\<rparr>"
  let ?b = "min (case cfg of None \<Rightarrow> 100 | Some b \<Rightarrow> b) 50"
  let ?good = "\<lambda>a. (\<exists>row \<in> set df. \<exists>id0 id_text. row_getitem row id_column = Inr id0
                   \<and> py_str w (uuid_to_str id0) = Inr id_text \<and> a_id a = id_text @ ''_'' @ ?ts)
               \<and> doc_field (a_source a) ''indexed_at'' = Some (VStr ?ts)
               \<and> doc_field (a_source a) ''document_id'' = Some (VStr (a_id a))"
  from run have nz: "?b \<noteq> 0" by (auto simp: sync_rows_def Let_def split: if_splits)
  show ?thesis
  proof (cases "?b < 0")
    case True
    with run have "st' = ?st1" by (simp add: sync_rows_def Let_def split: if_splits)
    then show ?thesis by simp
  next
    case False
    with nz run have st': "st' = batch_loop w (mapper ?ts) df (nat ?b) 0 ?st1"
      by (simp add: sync_rows_def Let_def split: if_splits)
    from batch_loop_calls [of w "mapper ?ts" df "nat ?b" 0 ?st1] obtain new where
      n1: "es_calls st' = es_calls st @ new"
      and n2: "\<forall>acts r. EsBulk acts r \<in> set new
          \<longrightarrow> (\<forall>a \<in> set acts. \<exists>row \<in> set df. mapper ?ts row = Some a)"
      by (auto simp: st')
    have "\<forall>acts refresh. EsBulk acts refresh \<in> set new \<longrightarrow> (\<forall>a \<in> set acts. ?good a)"
    proof (intro allI impI ballI)
      fix acts refresh a
      assume "EsBulk acts refresh \<in> set new" and "a \<in> set acts"
      with n2 obtain row where row: "row \<in> set df" and m: "mapper ?ts row = Some a" by blast
      from mapper_identity [OF mapper m] row show "?good a" by blast
    qed
    moreover have "clock_reads st' = clock_reads st + 1"
      by (simp add: st' batch_loop_clock)
    ultimately show ?thesis using n1 by blast
  qed
qed

lemma ds_eval:
  "data_source_action demo_world ''idx'' ts [(''id'', VStr i), (''name'', VStr n)]
   = Some \<lparr>a_index = ''idx'', a_id = i @ ''_'' @ ts,
       a_source = VDict [(''data_source_id'', VStr i),
        (''data_source_name'', VStr n),
        (''data_source_description'', VNone),
        (''data_source_dataMap'', VNone),
        (''data_source_entityName'', VNone),
        (''data_source_coverVisibleData'', VNone),
        (''data_source_gatewayType'', VNone),
        (''data_source_gatewayId'', VNone),
        (''data_source_moduleId'', VNone),
        (''data_source_statusId'', VNone),
        (''data_source_voidStatusId'', VNone),
        (''data_source_dailyLimit'', VNone),
        (''data_source_wipEnabled'', VNone),
        (''data_source_wipValue'', VNone),
        (''data_source_createdAt'', VNone),
        (''data_source_updatedAt'', VNone),
        (''indexed_at'', VStr ts),
        (''document_id'', VStr (i @ ''_'' @ ts))]\<rparr>"
  by (simp add: data_source_action_def data_source_doc_def bind_exn_def row_getitem_def
      row_get_def uuid_to_str_def py_str_def str_or_none_def make_action_def Let_def
      sanitize_document.simps sanitize_value.simps)

lemma demo_run:
  "sync_rows demo_world (data_source_action demo_world ''idx'') (Some 2) demo_rows pass_init
   = Inr \<lparr>successful_docs = 3, failed_docs = 0,
       es_calls =
         [EsBulk [the (data_source_action demo_world ''idx'' ''2024-01-01T00:00:00'' (demo_rows ! 0)),
                  the (data_source_action demo_world ''idx'' ''2024-01-01T00:00:00'' (demo_rows ! 1))]
            False,
          EsBulk [the (data_source_action demo_world ''idx'' ''2024-01-01T00:00:00'' (demo_rows ! 2))]
            True],
       clock_reads = 1\<rparr>"
  by (simp add: sync_rows_def Let_def batch_loop.simps sync_batch_def bulk_index_def
      demo_rows_def pass_init_def ds_eval)
     (simp add: demo_world_def)

theorem pass_documents_carry_timestamp_identity_witness:
  "sync_rows demo_world (data_source_action demo_world ''idx'') (Some 2) demo_rows pass_init
     = Inr \<lparr>successful_docs = 3, failed_docs = 0,
         es_calls =
           [EsBulk [the (data_source_action demo_world ''idx'' ''2024-01-01T00:00:00'' (demo_rows ! 0)),
                    the (data_source_action demo_world ''idx'' ''2024-01-01T00:00:00'' (demo_rows ! 1))]
              False,
            EsBulk [the (data_source_action demo_world ''idx'' ''2024-01-01T00:00:00'' (demo_rows ! 2))]
              True],
         clock_reads = 1\<rparr>
   \<and> map (\<lambda>row. map_option (\<lambda>a. (a_id a, doc_field (a_source a) ''indexed_at'',
            doc_field (a_source a) ''document_id''))
          (data_source_action demo_world ''idx'' ''2024-01-01T00:00:00'' row)) demo_rows
     = [Some (''ds1_2024-01-01T00:00:00'', Some (VStr ''2024-01-01T00:00:00''),
          Some (VStr ''ds1_2024-01-01T00:00:00'')),
        Some (''ds2_2024-01-01T00:00:00'', Some (VStr ''2024-01-01T00:00:00''),
          Some (VStr ''ds2_2024-01-01T00:00:00'')),
        Some (''ds3_2024-01-01T00:00:00'', Some (VStr ''2024-01-01T00:00:00''),
          Some (VStr ''ds3_2024-01-01T00:00:00''))]"
proof -
  have run: "sync_rows demo_world (data_source_action demo_world ''idx'') (Some 2) demo_rows pass_init
     = Inr \<lparr>successful_docs = 3, failed_docs = 0,
         es_calls =
           [EsBulk [the (data_source_action demo_world ''idx'' ''2024-01-01T00:00:00'' (demo_rows ! 0)),
                    the (data_source_action demo_world ''idx'' ''2024-01-01T00:00:00'' (demo_rows ! 1))]
              False,
            EsBulk [the (data_source_action demo_world ''idx'' ''2024-01-01T00:00:00'' (demo_rows ! 2))]
              True],
         clock_reads = 1\<rparr>"
    by (rule demo_run)
  have m: "(''id'' = ''id'' \<and> data_source_action demo_world ''idx'' = data_source_action demo_world ''idx'')
      \<or> (''id'' = ''ticket_id'' \<and> data_source_action demo_world ''idx'' = ticket_action demo_world [] [] ''idx'')"
    by simp
  show ?thesis
    using pass_documents_carry_timestamp_identity [OF run m]
    by (simp add: run) (simp add: demo_rows_def ds_eval)
qed





text \<open>
  Claim C9. When no label row has the ticket id of a ticket row (after the conversion of
  a UUID to its text on both sides), or when there are no label rows at all, the
  document produced for that ticket has a \<^verbatim>\<open>labels\<close> field and the field is the empty
  list.
\<close>

theorem ticket_without_labels_gets_empty_list:
  assumes lbt: "labels_by_ticket = [] \<or> process_ticket_labels df_labels = Inr labels_by_ticket"
    and tid: "row_getitem row ''ticket_id'' = Inr t0"
    and nomatch: "\<forall>lrow \<in> set df_labels.
        map_sum id uuid_to_str (row_getitem lrow ''ticketId'') \<noteq> Inr (uuid_to_str t0)"
    and a: "ticket_action w labels_by_ticket columns index_name index_timestamp row = Some a"
  shows "doc_field (a_source a) ''labels'' = Some (VList [])"
proof -
  have nokey: "uuid_to_str t0 \<notin> fst ` set labels_by_ticket"
  proof
    assume k: "uuid_to_str t0 \<in> fst ` set labels_by_ticket"
    then have "labels_by_ticket \<noteq> []" by auto
    with lbt have "process_ticket_labels_loop df_labels [] = Inr labels_by_ticket"
      by (simp add: process_ticket_labels_def)
    from process_ticket_labels_loop_keys [OF this k] nomatch show False by auto
  qed
  from a obtain did doc where d: "ticket_doc w labels_by_ticket columns index_timestamp row = Inr (did, doc)"
    and m: "make_action w index_name did doc = Some a"
    by (auto simp: ticket_action_def split: sum.splits)
  from ticket_doc_fields(5) [OF d] tid obtain labels where
    l: "labels_get labels_by_ticket (uuid_to_str t0) = Inr labels"
    and g: "dict_get doc ''labels'' = Some (VList labels)"
    by auto
  from nokey have "map_of labels_by_ticket (uuid_to_str t0) = None"
    by (simp add: map_of_eq_None_iff)
  with l have "labels = []" by (auto simp: labels_get_def split: if_splits)
  with g have g': "dict_get doc ''labels'' = Some (VList [])" by simp
  from make_action_field [OF m ticket_doc_fields(1) [OF d] g']
  show ?thesis by (simp add: sanitize_value_empty_list)
qed

lemma demo_labels_by_ticket:
  "process_ticket_labels demo_labels
     = Inr [(VStr ''A'',
         [VDict [(''id'', VStr ''L1''), (''name'', VStr ''Bug''), (''color'', VStr ''red'')],
          VDict [(''id'', VStr ''L2''), (''name'', VStr ''Urgent''), (''color'', VStr ''yellow'')]])]"
  by (simp add: process_ticket_labels_def demo_labels_def bind_exn_def row_getitem_def
      uuid_to_str_def notna_truth_def Let_def)

lemma demo_ticket_B:
  "ticket_action demo_world
     [(VStr ''A'',
         [VDict [(''id'', VStr ''L1''), (''name'', VStr ''Bug''), (''color'', VStr ''red'')],
          VDict [(''id'', VStr ''L2''), (''name'', VStr ''Urgent''), (''color'', VStr ''yellow'')]])]
     demo_columns ''idx'' ''2024-01-01T00:00:00'' (demo_tickets ! 1)
   = Some \<lparr>a_index = ''idx'', a_id = ''B_2024-01-01T00:00:00'',
       a_source = VDict [(''ticket_id'', VStr ''B''), (''ticket_number'', VInt 1002),
         (''status_id'', VNone), (''status_name'', VNone), (''labels'', VList []),
         (''indexed_at'', VStr ''2024-01-01T00:00:00''),
         (''document_id'', VStr ''B_2024-01-01T00:00:00'')]\<rparr>"
  by (simp add: ticket_action_def ticket_doc_def demo_tickets_def demo_columns_def
      bind_exn_def row_getitem_def uuid_to_str_def copy_cell_def parse_ticket_data_def
      labels_get_def py_str_def make_action_def Let_def
      sanitize_document.simps sanitize_value.simps)

theorem ticket_without_labels_gets_empty_list_witness:
  "process_ticket_labels demo_labels
     = Inr [(VStr ''A'',
         [VDict [(''id'', VStr ''L1''), (''name'', VStr ''Bug''), (''color'', VStr ''red'')],
          VDict [(''id'', VStr ''L2''), (''name'', VStr ''Urgent''), (''color'', VStr ''yellow'')]])]
   \<and> row_getitem (demo_tickets ! 1) ''ticket_id'' = Inr (VStr ''B'')
   \<and> map (\<lambda>lrow. map_sum id uuid_to_str (row_getitem lrow ''ticketId'')) demo_labels
     = [Inr (VStr ''A''), Inr (VStr ''A'')]
   \<and> map_option (\<lambda>a. doc_field (a_source a) ''labels'')
       (ticket_action demo_world
         [(VStr ''A'',
            [VDict [(''id'', VStr ''L1''), (''name'', VStr ''Bug''), (''color'', VStr ''red'')],
             VDict [(''id'', VStr ''L2''), (''name'', VStr ''Urgent''), (''color'', VStr ''yellow'')]])]
         demo_columns ''idx'' ''2024-01-01T00:00:00'' (demo_tickets ! 1))
     = Some (Some (VList []))"
proof -
  let ?lbt = "[(VStr ''A'',
            [VDict [(''id'', VStr ''L1''), (''name'', VStr ''Bug''), (''color'', VStr ''red'')],
             VDict [(''id'', VStr ''L2''), (''name'', VStr ''Urgent''), (''color'', VStr ''yellow'')]])]"
  have l: "?lbt = [] \<or> process_ticket_labels demo_labels = Inr ?lbt"
    by (simp add: demo_labels_by_ticket)
  have t: "row_getitem (demo_tickets ! 1) ''ticket_id'' = Inr (VStr ''B'')"
    by (simp add: demo_tickets_def row_getitem_def)
  have n: "\<forall>lrow \<in> set demo_labels.
        map_sum id uuid_to_str (row_getitem lrow ''ticketId'') \<noteq> Inr (uuid_to_str (VStr ''B''))"
    by (simp add: demo_labels_def row_getitem_def uuid_to_str_def)
  have c3: "map (\<lambda>lrow. map_sum id uuid_to_str (row_getitem lrow ''ticketId'')) demo_labels
     = [Inr (VStr ''A''), Inr (VStr ''A'')]"
    by (simp add: demo_labels_def row_getitem_def uuid_to_str_def)
  have c4: "map_option (\<lambda>a. doc_field (a_source a) ''labels'')
       (ticket_action demo_world ?lbt demo_columns ''idx'' ''2024-01-01T00:00:00''
          (demo_tickets ! 1))
     = Some (Some (VList []))"
    unfolding demo_ticket_B
    using ticket_without_labels_gets_empty_list [OF l t n demo_ticket_B]
    by simp
  from demo_labels_by_ticket t c3 c4 show ?thesis by (intro conjI)
qed

lemma legacy_index_each_counts:
  "successful_docs (legacy_index_each w actions st) + failed_docs (legacy_index_each w actions st)
     = successful_docs st + failed_docs st + length actions"
  by (induction actions arbitrary: st) (auto simp: Let_def split: sum.splits)

lemma legacy_dispatch_accounts_for_batch:
  "successful_docs (legacy_dispatch w index_name actions st)
     + failed_docs (legacy_dispatch w index_name actions st)
   = successful_docs st + failed_docs st + length actions"
  by (simp add: legacy_dispatch_def legacy_index_each_counts)

text \<open>
  Claim C3. The claim: when the bulk call itself raises, the documents of the batch are
  indexed one by one before the batch is given up on, so they are counted as successes
  or failures. In \<^verbatim>\<open>src/es_connector.py\<close> \<^verbatim>\<open>bulk_index\<close> catches the exception and
  answers \<^verbatim>\<open>(0, [])\<close>: for one data source and an index store whose bulk call raises,
  the pass makes the bulk call and no other, and ends with no success and no failure
  counted. The older pass of \<^verbatim>\<open>ticket_sync.py\<close> does index each document of such a
  batch and counts it, as \<open>legacy_dispatch_accounts_for_batch\<close> shows.
\<close>

theorem bulk_failure_leaves_batch_uncounted:
  "sync_data_sources unreachable_world ''data_lake_'' (Some 1000) (Some [demo_rows ! 0]) pass_init
     = Inr \<lparr>successful_docs = 0, failed_docs = 0,
         es_calls =
           [EsCreateIndex ''data_lake_data_sources'',
            EsBulk [\<lparr>a_index = ''data_lake_data_sources'', a_id = ''ds1_2024-01-01T00:00:00'',
                a_source = VDict [(''data_source_id'', VStr ''ds1''),
                  (''data_source_name'', VStr ''Source 1''),
                  (''data_source_description'', VNone),
                  (''data_source_dataMap'', VNone),
                  (''data_source_entityName'', VNone),
                  (''data_source_coverVisibleData'', VNone),
                  (''data_source_gatewayType'', VNone),
                  (''data_source_gatewayId'', VNone),
                  (''data_source_moduleId'', VNone),
                  (''data_source_statusId'', VNone),
                  (''data_source_voidStatusId'', VNone),
                  (''data_source_dailyLimit'', VNone),
                  (''data_source_wipEnabled'', VNone),
                  (''data_source_wipValue'', VNone),
                  (''data_source_createdAt'', VNone),
                  (''data_source_updatedAt'', VNone),
                  (''indexed_at'', VStr ''2024-01-01T00:00:00''),
                  (''document_id'', VStr ''ds1_2024-01-01T00:00:00'')]\<rparr>] True],
         clock_reads = 1\<rparr>"
  by (simp add: sync_data_sources_def create_index_def bind_exn_def sync_rows_def Let_def
      batch_loop.simps sync_batch_def bulk_index_def demo_rows_def pass_init_def
      unreachable_world_def demo_world_def
      data_source_action_def data_source_doc_def row_getitem_def
      row_get_def uuid_to_str_def py_str_def str_or_none_def make_action_def
      sanitize_document.simps sanitize_value.simps)

section \<open>Properties of the latest-status resolver\<close>

lemma set_latest_status_from:
  "set ticket_status' = set ticket_status \<Longrightarrow> set status' = set status \<Longrightarrow>
   set (latest_status_from ticket_status' status') = set (latest_status_from ticket_status status)"
  by (auto simp: latest_status_from_def)

lemma first_of_sorted:
  fixes key :: "'a \<Rightarrow> 'k::linorder"
  assumes "sorted (map key xs)" and "r \<in> set xs" and "P r"
    and "\<And>x. x \<in> set xs \<Longrightarrow> P x \<Longrightarrow> x \<noteq> r \<Longrightarrow> key r < key x"
  shows "find P xs = Some r"
  using assms
proof (induction xs)
  case Nil
  then show ?case by simp
next
  case (Cons a xs)
  from Cons.prems(1) have le: "\<forall>y \<in> set xs. key a \<le> key y" and s: "sorted (map key xs)"
    by simp_all
  show ?case
  proof (cases "P a")
    case True
    have "a = r"
    proof (rule ccontr)
      assume ne: "a \<noteq> r"
      with Cons.prems(2) have "r \<in> set xs" by simp
      with le have "key a \<le> key r" by blast
      moreover from Cons.prems(4) [of a] True ne have "key r < key a" by simp
      ultimately show False by simp
    qed
    with True show ?thesis by simp
  next
    case False
    with Cons.prems(2,3) have r: "r \<in> set xs" by auto
    have "find P xs = Some r"
      using s r Cons.prems(3) Cons.prems(4) by (intro Cons.IH) simp_all
    with False show ?thesis by simp
  qed
qed

lemma sorted_ticketId:
  "sorted (map (\<lambda>r. (ticketId r, - status_created_at r)) xs) \<Longrightarrow> sorted (map ticketId xs)"
  by (induction xs) (auto simp: less_eq_prod_def)

text \<open>
  On rows sorted by ticket id, \<^verbatim>\<open>DISTINCT ON\<close> leaves for a ticket the first of its
  rows and no other.
\<close>

lemma filter_distinct_on_ticketId:
  "sorted (map ticketId xs) \<Longrightarrow>
   filter (\<lambda>ls. ticketId ls = t) (distinct_on_ticketId xs)
     = (case find (\<lambda>ls. ticketId ls = t) xs of None \<Rightarrow> [] | Some x \<Rightarrow> [x])"
proof (induction xs rule: distinct_on_ticketId.induct)
  case (1 r1 r2 rs)
  from "1.prems" have s1: "sorted (map ticketId (r1 # rs))" and s2: "sorted (map ticketId (r2 # rs))"
    and le: "\<forall>x \<in> set (r2 # rs). ticketId r1 \<le> ticketId x"
    by auto
  show ?case
  proof (cases "ticketId r1 = ticketId r2")
    case True
    with "1.IH"(1) [OF True s1] show ?thesis by auto
  next
    case False
    show ?thesis
    proof (cases "ticketId r1 = t")
      case t: True
      from le False have "\<forall>x \<in> set (r2 # rs). ticketId x \<noteq> t"
        using "1.prems" t by force
      then have "find (\<lambda>ls. ticketId ls = t) (r2 # rs) = None"
        by (simp add: find_None_iff)
      with "1.IH"(2) [OF False s2] False t show ?thesis by simp
    next
      case f: False
      with "1.IH"(2) [OF False s2] False show ?thesis by simp
    qed
  qed
qed simp_all

text \<open>
  Claim C6. Take the status-history rows that the query joins and keeps, and a row of
  ticket \<open>t\<close> among them whose created timestamp is strictly greater than that of
  every other row of \<open>t\<close> (for timestamps T1 < T2 < T3, the T3 row). Then the rows
  that the resolver leaves for \<open>t\<close> are that row and no other, in whatever order the
  rows of the two tables are presented.
\<close>

theorem latest_status_is_maximum:
  assumes perm: "mset ticket_status' = mset ticket_status" "mset status' = mset status"
    and r: "r \<in> set (latest_status_from ticket_status status)"
    and t: "ticketId r = t"
    and strict: "\<forall>r' \<in> set (latest_status_from ticket_status status).
        ticketId r' = t \<and> r' \<noteq> r \<longrightarrow> status_created_at r' < status_created_at r"
  shows "current_status ticket_status' status' t = [r]"
proof -
  let ?J = "latest_status_from ticket_status' status'"
  let ?key = "\<lambda>r. (ticketId r, - status_created_at r)"
  have J: "set ?J = set (latest_status_from ticket_status status)"
    using perm by (intro set_latest_status_from) (auto dest: mset_eq_setD)
  have srt: "sorted (map ?key (sort_key ?key ?J))" by (rule sorted_sort_key)
  have "find (\<lambda>ls. ticketId ls = t) (sort_key ?key ?J) = Some r"
  proof (rule first_of_sorted [where key = ?key])
    show "sorted (map ?key (sort_key ?key ?J))" by (rule srt)
    show "r \<in> set (sort_key ?key ?J)" using r J by simp
    show "ticketId r = t" by (rule t)
  next
    fix x assume "x \<in> set (sort_key ?key ?J)" and "ticketId x = t" and "x \<noteq> r"
    with strict J have "status_created_at x < status_created_at r" by simp
    with \<open>ticketId x = t\<close> t show "?key r < ?key x" by (simp add: less_prod_def)
  qed
  with filter_distinct_on_ticketId [OF sorted_ticketId [OF srt], of t]
  show ?thesis by (simp add: current_status_def latest_status_def)
qed

theorem latest_status_is_maximum_witness:
  "mset demo_history_shuffled = mset demo_history \<and> mset demo_status = mset demo_status
   \<and> \<lparr>ticketId = 7, statusId = 3, status_name = ''Done'', isFinalStatus = True,
        status_created_at = 300\<rparr> \<in> set (latest_status_from demo_history demo_status)
   \<and> filter (\<lambda>r'. ticketId r' = 7
          \<and> r' \<noteq> \<lparr>ticketId = 7, statusId = 3, status_name = ''Done'', isFinalStatus = True,
                   status_created_at = 300\<rparr>
          \<and> \<not> status_created_at r' < 300) (latest_status_from demo_history demo_status) = []
   \<and> current_status demo_history_shuffled demo_status 7
       = [\<lparr>ticketId = 7, statusId = 3, status_name = ''Done'', isFinalStatus = True,
           status_created_at = 300\<rparr>]
   \<and> current_status demo_history demo_status 7
       = [\<lparr>ticketId = 7, statusId = 3, status_name = ''Done'', isFinalStatus = True,
           status_created_at = 300\<rparr>]"
proof -
  let ?r = "\<lparr>ticketId = 7, statusId = 3, status_name = ''Done'', isFinalStatus = True,
        status_created_at = 300\<rparr>"
  have J: "latest_status_from demo_history demo_status =
     [\<lparr>ticketId = 7, statusId = 1, status_name = ''Open'', isFinalStatus = False,
        status_created_at = 100\<rparr>,
      \<lparr>ticketId = 7, statusId = 2, status_name = ''Doing'', isFinalStatus = False,
        status_created_at = 200\<rparr>,
      ?r,
      \<lparr>ticketId = 5, statusId = 3, status_name = ''Done'', isFinalStatus = True,
        status_created_at = 900\<rparr>]"
    by (simp add: latest_status_from_def demo_history_def demo_status_def)
  have p1: "mset demo_history_shuffled = mset demo_history"
    by (simp add: demo_history_shuffled_def demo_history_def add_mset_commute)
  have p2: "mset demo_status = mset demo_status" by simp
  have p0: "mset demo_history = mset demo_history" by simp
  have r: "?r \<in> set (latest_status_from demo_history demo_status)" by (simp add: J)
  have t: "ticketId ?r = 7" by simp
  have strict: "\<forall>r' \<in> set (latest_status_from demo_history demo_status).
        ticketId r' = 7 \<and> r' \<noteq> ?r \<longrightarrow> status_created_at r' < status_created_at ?r"
    by (simp add: J)
  have f: "filter (\<lambda>r'. ticketId r' = 7 \<and> r' \<noteq> ?r \<and> \<not> status_created_at r' < 300)
      (latest_status_from demo_history demo_status) = []"
    by (simp add: J)
  from p1 p2 r f latest_status_is_maximum [OF p1 p2 r t strict]
    latest_status_is_maximum [OF p0 p2 r t strict]
  show ?thesis by (intro conjI)
qed

end
